theory Spec2Isabelle
  imports Complex_Main "HOL-Library.Multiset" "HOL-Library.Log_Nat"
begin

section \<open>Data model of the monthly report\<close>

text \<open>
  The two aggregations live in the component \<^verbatim>\<open>MonthlyReportTab\<close>
  (\<^verbatim>\<open>src/unnamed/part_001\<close>): the memoised values \<^verbatim>\<open>productsSold\<close>
  (lines 141-170) and \<^verbatim>\<open>customerPurchases\<close> (lines 173-201).

  Every field that the code guards with \<^verbatim>\<open>||\<close> is modelled as an option:
  \<open>None\<close> is the absent field (\<^verbatim>\<open>undefined\<close>). A number is the rational
  value of a finite IEEE double; the arithmetic of the code rounds (section
  ``JavaScript numbers''). The fields of a sale that neither aggregation reads
  (\<^verbatim>\<open>id\<close>, \<^verbatim>\<open>order_number\<close>, \<^verbatim>\<open>payment_method\<close>, \<^verbatim>\<open>status\<close>,
  \<^verbatim>\<open>created_at\<close>) are left out.
\<close>

record saleItem =
  product_name :: "string option"
  product_sku :: "string option"
  quantity :: "rat option"
  unit_price :: "rat option"
  total_price :: "rat option"
  category :: "string option"

record sale =
  customer_name :: "string option"
  customer_phone :: "string option"
  customer_type :: "string option"
  items :: "saleItem list option"
  total_amount :: "rat option"

text \<open>
  The result of a JavaScript division: dividing by zero does not throw, it yields
  \<^verbatim>\<open>NaN\<close> or an infinity.
\<close>

datatype jsnum = Fin rat | PosInf | NegInf | NaN

text \<open>
  The interfaces \<^verbatim>\<open>ProductSold\<close> and \<^verbatim>\<open>CustomerPurchase\<close>. Their fields
  carry a prefix, since \<^verbatim>\<open>name\<close>, \<^verbatim>\<open>quantity\<close> and \<^verbatim>\<open>category\<close> occur
  in several interfaces. An element of \<^verbatim>\<open>products\<close> is the \<^verbatim>\<open>product_name\<close>
  of a line item as it is, so it may be absent. The number of orders is a count that
  starts at 1 and grows by 1, far below the range where a double stops being exact.
\<close>

record productSold =
  ps_name :: string
  ps_sku :: string
  ps_category :: string
  ps_quantity :: rat
  ps_revenue :: rat
  ps_avgPrice :: jsnum

record customerPurchase =
  cp_name :: string
  cp_phone :: string
  cp_type :: string
  cp_orders :: nat
  cp_totalSpent :: rat
  cp_products :: "string option list"

section \<open>JavaScript numbers\<close>

text \<open>
  A JavaScript number is an IEEE 754 double: 53 significant bits, and every
  arithmetic operation returns the double nearest to the exact result, a tie going to
  the even significand. \<open>binade x\<close> is the exponent \<open>e\<close> with
  \<open>2 powi e \<le> \<bar>x\<bar> < 2 powi (e + 1)\<close>, and \<open>fl x\<close> is \<open>x\<close> rounded to 53
  significant bits. The range of the exponent is not bounded here: overflow to an
  infinity and the subnormal numbers are outside the model.
\<close>

definition round_half_even :: "rat \<Rightarrow> int" where
  "round_half_even m =
     (let f = \<lfloor>m\<rfloor>; r = m - of_int f in
      if r < 1 / 2 then f
      else if 1 / 2 < r then f + 1
      else if even f then f else f + 1)"

definition binade :: "rat \<Rightarrow> int" where
  "binade x =
     (case quotient_of \<bar>x\<bar> of (p, q) \<Rightarrow>
        let d = bitlen p - bitlen q in
        if 2 powi d \<le> \<bar>x\<bar> then d else d - 1)"

definition fl :: "rat \<Rightarrow> rat" where
  "fl x =
     (if x = 0 then 0
      else let u = 2 powi (binade x - 52) in of_int (round_half_even (x / u)) * u)"

text \<open>\<^verbatim>\<open>a + b\<close>, \<^verbatim>\<open>a - b\<close> and \<^verbatim>\<open>a / b\<close> on finite numbers.\<close>

definition js_add :: "rat \<Rightarrow> rat \<Rightarrow> rat" where
  "js_add a b = fl (a + b)"

definition js_sub :: "rat \<Rightarrow> rat \<Rightarrow> rat" where
  "js_sub a b = fl (a - b)"

definition js_div :: "rat \<Rightarrow> rat \<Rightarrow> jsnum" where
  "js_div a b =
     (if b \<noteq> 0 then Fin (fl (a / b))
      else if a = 0 then NaN
      else if 0 < a then PosInf else NegInf)"

section \<open>JavaScript operators used by the code\<close>

text \<open>\<^verbatim>\<open>s || d\<close> on a string: the absent and the empty string are falsy.\<close>

definition str_or :: "string option \<Rightarrow> string \<Rightarrow> string" where
  "str_or s d = (case s of None \<Rightarrow> d | Some v \<Rightarrow> if v = [] then d else v)"

text \<open>\<^verbatim>\<open>x || 0\<close> on a number: the absent number and zero are falsy.\<close>

definition num_or0 :: "rat option \<Rightarrow> rat" where
  "num_or0 x = (case x of None \<Rightarrow> 0 | Some v \<Rightarrow> if v = 0 then 0 else v)"

text \<open>
  A \<^verbatim>\<open>Map\<close> keeps its entries in the order in which the keys were first set:
  an association list with \<^verbatim>\<open>get\<close> as lookup, and \<^verbatim>\<open>set\<close> replacing the
  entry of a key in place or appending a new one.
\<close>

type_synonym ('k, 'v) jsmap = "('k \<times> 'v) list"

definition jsmap_get :: "('k, 'v) jsmap \<Rightarrow> 'k \<Rightarrow> 'v option" where
  "jsmap_get m k = map_of m k"

fun jsmap_set :: "'k \<Rightarrow> 'v \<Rightarrow> ('k, 'v) jsmap \<Rightarrow> ('k, 'v) jsmap" where
  "jsmap_set k v [] = [(k, v)]"
| "jsmap_set k v ((k', v') # m) =
     (if k' = k then (k, v) # m else (k', v') # jsmap_set k v m)"

definition jsmap_values :: "('k, 'v) jsmap \<Rightarrow> 'v list" where
  "jsmap_values m = map snd m"

text \<open>
  \<^verbatim>\<open>[...new Set(xs)]\<close>: the elements of \<open>xs\<close> in the order of their first
  occurrence, each once.
\<close>

fun set_spread :: "'a list \<Rightarrow> 'a list \<Rightarrow> 'a list" where
  "set_spread seen [] = seen"
| "set_spread seen (x # xs) =
     (if x \<in> set seen then set_spread seen xs else set_spread (seen @ [x]) xs)"

definition new_Set :: "'a list \<Rightarrow> 'a list" where
  "new_Set xs = set_spread [] xs"

text \<open>
  \<^verbatim>\<open>Array.prototype.sort(cmp)\<close> is stable: \<open>a\<close> goes before \<open>b\<close> when
  \<open>cmp a b < 0\<close>, after it when \<open>cmp a b > 0\<close>, and the two keep their order
  when \<open>cmp a b = 0\<close>.
\<close>

fun insert_cmp :: "('a \<Rightarrow> 'a \<Rightarrow> rat) \<Rightarrow> 'a \<Rightarrow> 'a list \<Rightarrow> 'a list" where
  "insert_cmp cmp x [] = [x]"
| "insert_cmp cmp x (y # ys) =
     (if cmp x y \<le> 0 then x # y # ys else y # insert_cmp cmp x ys)"

definition array_sort :: "('a \<Rightarrow> 'a \<Rightarrow> rat) \<Rightarrow> 'a list \<Rightarrow> 'a list" where
  "array_sort cmp xs = foldr (insert_cmp cmp) xs []"

section \<open>productsSold\<close>

text \<open>\<^verbatim>\<open>sale.items || []\<close>\<close>

definition saleItems :: "sale \<Rightarrow> saleItem list" where
  "saleItems s = (case items s of None \<Rightarrow> [] | Some xs \<Rightarrow> xs)"

text \<open>\<^verbatim>\<open>const key = item.product_sku || item.product_name\<close>\<close>

definition productKey :: "saleItem \<Rightarrow> string option" where
  "productKey item =
     (case product_sku item of
        None \<Rightarrow> product_name item
      | Some s \<Rightarrow> if s = [] then product_name item else Some s)"

text \<open>The object stored for a key that is not yet in the map (lines 157-164).\<close>

definition newProduct :: "saleItem \<Rightarrow> productSold" where
  "newProduct item =
     \<lparr> ps_name = str_or (product_name item) ''Unknown Product'',
       ps_sku = str_or (product_sku item) ''-'',
       ps_category = str_or (category item) ''Uncategorized'',
       ps_quantity = num_or0 (quantity item),
       ps_revenue = num_or0 (total_price item),
       ps_avgPrice = Fin (num_or0 (unit_price item)) \<rparr>"

text \<open>The three assignments to an existing object (lines 153-155), in their order.\<close>

definition mergeProduct :: "productSold \<Rightarrow> saleItem \<Rightarrow> productSold" where
  "mergeProduct existing item =
     (let e1 = existing\<lparr> ps_quantity := js_add (ps_quantity existing) (num_or0 (quantity item)) \<rparr>;
          e2 = e1\<lparr> ps_revenue := js_add (ps_revenue e1) (num_or0 (total_price item)) \<rparr>
      in e2\<lparr> ps_avgPrice := js_div (ps_revenue e2) (ps_quantity e2) \<rparr>)"

text \<open>
  The body of the inner \<^verbatim>\<open>forEach\<close> (lines 148-166). The existing object is
  mutated in place, so its entry keeps its position in the map.
\<close>

definition addItem ::
  "(string option, productSold) jsmap \<Rightarrow> saleItem \<Rightarrow> (string option, productSold) jsmap" where
  "addItem productMap item =
     (let key = productKey item in
      case jsmap_get productMap key of
        Some existing \<Rightarrow> jsmap_set key (mergeProduct existing item) productMap
      | None \<Rightarrow> jsmap_set key (newProduct item) productMap)"

text \<open>The two nested \<^verbatim>\<open>forEach\<close> loops (lines 146-167), from the empty map.\<close>

definition productMap :: "sale list \<Rightarrow> (string option, productSold) jsmap" where
  "productMap salesData = foldl (\<lambda>m s. foldl addItem m (saleItems s)) [] salesData"

text \<open>
  \<^verbatim>\<open>productsSold\<close>; \<open>None\<close> is \<^verbatim>\<open>salesData\<close> that is absent or not an array
  (line 142).
\<close>

definition productsSold :: "sale list option \<Rightarrow> productSold list" where
  "productsSold salesData =
     (case salesData of
        None \<Rightarrow> []
      | Some sales \<Rightarrow>
          array_sort (\<lambda>a b. js_sub (ps_revenue b) (ps_revenue a))
            (jsmap_values (productMap sales)))"

section \<open>customerPurchases\<close>

text \<open>\<^verbatim>\<open>const key = sale.customer_name || 'Walk-in Customer'\<close>\<close>

definition customerKey :: "sale \<Rightarrow> string" where
  "customerKey s = str_or (customer_name s) ''Walk-in Customer''"

definition productNames :: "sale \<Rightarrow> string option list" where
  "productNames s = map product_name (saleItems s)"

definition newCustomer :: "sale \<Rightarrow> customerPurchase" where
  "newCustomer s =
     \<lparr> cp_name = customerKey s,
       cp_phone = str_or (customer_phone s) ''-'',
       cp_type = str_or (customer_type s) ''Individual'',
       cp_orders = 1,
       cp_totalSpent = num_or0 (total_amount s),
       cp_products = productNames s \<rparr>"

definition mergeCustomer :: "customerPurchase \<Rightarrow> sale \<Rightarrow> customerPurchase" where
  "mergeCustomer existing s =
     existing\<lparr> cp_orders := cp_orders existing + 1,
               cp_totalSpent := js_add (cp_totalSpent existing) (num_or0 (total_amount s)),
               cp_products := new_Set (cp_products existing @ productNames s) \<rparr>"

definition addSale ::
  "(string, customerPurchase) jsmap \<Rightarrow> sale \<Rightarrow> (string, customerPurchase) jsmap" where
  "addSale customerMap s =
     (let key = customerKey s in
      case jsmap_get customerMap key of
        Some existing \<Rightarrow> jsmap_set key (mergeCustomer existing s) customerMap
      | None \<Rightarrow> jsmap_set key (newCustomer s) customerMap)"

definition customerMap :: "sale list \<Rightarrow> (string, customerPurchase) jsmap" where
  "customerMap salesData = foldl addSale [] salesData"

definition customerPurchases :: "sale list option \<Rightarrow> customerPurchase list" where
  "customerPurchases salesData =
     (case salesData of
        None \<Rightarrow> []
      | Some sales \<Rightarrow>
          array_sort (\<lambda>a b. js_sub (cp_totalSpent b) (cp_totalSpent a))
            (jsmap_values (customerMap sales)))"

section \<open>The same code on unchecked data\<close>

text \<open>
  The interfaces are not checked at run time. On data that does not follow them the
  code can throw a \<^verbatim>\<open>TypeError\<close> in two ways: by reading a property of an array
  element that is \<^verbatim>\<open>null\<close> or \<^verbatim>\<open>undefined\<close> (\<^verbatim>\<open>sale.items\<close>,
  \<^verbatim>\<open>item.product_sku\<close>, \<^verbatim>\<open>sale.customer_name\<close>, \<^verbatim>\<open>item.product_name\<close>),
  and by calling \<^verbatim>\<open>forEach\<close> or \<^verbatim>\<open>map\<close> on \<^verbatim>\<open>items\<close> that are truthy but
  not an array. Such an element is \<open>None\<close> below, and such \<^verbatim>\<open>items\<close> are
  \<open>ItemsOther\<close>. No other operation of the two aggregations throws.
\<close>

datatype js_error = TypeError

datatype raw_items = ItemsFalsy | ItemsArray "saleItem option list" | ItemsOther

record raw_sale =
  raw_customer_name :: "string option"
  raw_customer_phone :: "string option"
  raw_customer_type :: "string option"
  raw_items :: raw_items
  raw_total_amount :: "rat option"

text \<open>A loop whose body may throw: the first exception ends it.\<close>

fun forEach_raw :: "('m \<Rightarrow> 'a \<Rightarrow> js_error + 'm) \<Rightarrow> 'm \<Rightarrow> 'a list \<Rightarrow> js_error + 'm" where
  "forEach_raw f m [] = Inr m"
| "forEach_raw f m (x # xs) =
     (case f m x of Inl e \<Rightarrow> Inl e | Inr m' \<Rightarrow> forEach_raw f m' xs)"

text \<open>\<^verbatim>\<open>sale.items || []\<close>, about to receive \<^verbatim>\<open>forEach\<close> or \<^verbatim>\<open>map\<close>.\<close>

definition raw_saleItems :: "raw_sale \<Rightarrow> js_error + saleItem option list" where
  "raw_saleItems s =
     (case raw_items s of
        ItemsFalsy \<Rightarrow> Inr []
      | ItemsArray xs \<Rightarrow> Inr xs
      | ItemsOther \<Rightarrow> Inl TypeError)"

definition addItem_raw ::
  "(string option, productSold) jsmap \<Rightarrow> saleItem option \<Rightarrow>
   js_error + (string option, productSold) jsmap" where
  "addItem_raw m item =
     (case item of None \<Rightarrow> Inl TypeError | Some i \<Rightarrow> Inr (addItem m i))"

definition addItems_raw ::
  "(string option, productSold) jsmap \<Rightarrow> raw_sale option \<Rightarrow>
   js_error + (string option, productSold) jsmap" where
  "addItems_raw m sale =
     (case sale of
        None \<Rightarrow> Inl TypeError
      | Some s \<Rightarrow>
          (case raw_saleItems s of
             Inl e \<Rightarrow> Inl e
           | Inr xs \<Rightarrow> forEach_raw addItem_raw m xs))"

definition productsSold_raw :: "raw_sale option list option \<Rightarrow> js_error + productSold list" where
  "productsSold_raw salesData =
     (case salesData of
        None \<Rightarrow> Inr []
      | Some sales \<Rightarrow>
          (case forEach_raw addItems_raw [] sales of
             Inl e \<Rightarrow> Inl e
           | Inr m \<Rightarrow>
               Inr (array_sort (\<lambda>a b. js_sub (ps_revenue b) (ps_revenue a)) (jsmap_values m))))"

text \<open>
  The record that the body of the customer loop works with, once its line items have
  been read without an exception.
\<close>

definition checked_sale :: "raw_sale \<Rightarrow> saleItem list \<Rightarrow> sale" where
  "checked_sale s xs =
     \<lparr> customer_name = raw_customer_name s,
       customer_phone = raw_customer_phone s,
       customer_type = raw_customer_type s,
       items = Some xs,
       total_amount = raw_total_amount s \<rparr>"

definition addSale_raw ::
  "(string, customerPurchase) jsmap \<Rightarrow> raw_sale option \<Rightarrow>
   js_error + (string, customerPurchase) jsmap" where
  "addSale_raw m sale =
     (case sale of
        None \<Rightarrow> Inl TypeError
      | Some s \<Rightarrow>
          (case raw_saleItems s of
             Inl e \<Rightarrow> Inl e
           | Inr xs \<Rightarrow>
               (case those xs of
                  None \<Rightarrow> Inl TypeError
                | Some is \<Rightarrow> Inr (addSale m (checked_sale s is)))))"

definition customerPurchases_raw ::
  "raw_sale option list option \<Rightarrow> js_error + customerPurchase list" where
  "customerPurchases_raw salesData =
     (case salesData of
        None \<Rightarrow> Inr []
      | Some sales \<Rightarrow>
          (case forEach_raw addSale_raw [] sales of
             Inl e \<Rightarrow> Inl e
           | Inr m \<Rightarrow>
               Inr (array_sort (\<lambda>a b. js_sub (cp_totalSpent b) (cp_totalSpent a))
                      (jsmap_values m))))"

text \<open>Data that follows the interfaces, seen as unchecked data.\<close>

definition raw_of_sale :: "sale \<Rightarrow> raw_sale" where
  "raw_of_sale s =
     \<lparr> raw_customer_name = customer_name s,
       raw_customer_phone = customer_phone s,
       raw_customer_type = customer_type s,
       raw_items = (case items s of None \<Rightarrow> ItemsFalsy | Some xs \<Rightarrow> ItemsArray (map Some xs)),
       raw_total_amount = total_amount s \<rparr>"

definition raw_of :: "sale list option \<Rightarrow> raw_sale option list option" where
  "raw_of salesData = map_option (map (\<lambda>s. Some (raw_of_sale s))) salesData"

section \<open>Notions used to state the properties\<close>

text \<open>The value of an optional field, with a default for the absent one.\<close>

definition or_default :: "'a \<Rightarrow> 'a option \<Rightarrow> 'a" where
  "or_default d x = (case x of None \<Rightarrow> d | Some v \<Rightarrow> v)"

text \<open>All line items of all records, in the order in which the loops visit them.\<close>

definition allItems :: "sale list \<Rightarrow> saleItem list" where
  "allItems sales = concat (map (\<lambda>s. or_default [] (items s)) sales)"

text \<open>The elements of a list in the order of their first occurrence, each once.\<close>

definition firsts :: "'a list \<Rightarrow> 'a list" where
  "firsts ks = rev (remdups (rev ks))"

text \<open>
  The common shape of the two loop bodies: look the key up, merge into the existing
  object or store a new one. \<open>addItem\<close> and \<open>addSale\<close> are instances
  (lemmas \<open>addItem_group\<close> and \<open>addSale_group\<close>).
\<close>

definition group_step ::
  "('x \<Rightarrow> 'k) \<Rightarrow> ('x \<Rightarrow> 'v) \<Rightarrow> ('v \<Rightarrow> 'x \<Rightarrow> 'v) \<Rightarrow>
   ('k, 'v) jsmap \<Rightarrow> 'x \<Rightarrow> ('k, 'v) jsmap" where
  "group_step key new merge m x =
     (case jsmap_get m (key x) of
        Some e \<Rightarrow> jsmap_set (key x) (merge e x) m
      | None \<Rightarrow> jsmap_set (key x) (new x) m)"

text \<open>
  The summary of a non-empty group: created from its first element, the others merged
  into it in their order.
\<close>

definition summarise :: "('x \<Rightarrow> 'v) \<Rightarrow> ('v \<Rightarrow> 'x \<Rightarrow> 'v) \<Rightarrow> 'x list \<Rightarrow> 'v" where
  "summarise new merge xs = foldl merge (new (hd xs)) (tl xs)"

definition grouped ::
  "('x \<Rightarrow> 'k) \<Rightarrow> ('x \<Rightarrow> 'v) \<Rightarrow> ('v \<Rightarrow> 'x \<Rightarrow> 'v) \<Rightarrow> 'x list \<Rightarrow> ('k, 'v) jsmap" where
  "grouped key new merge xs =
     map (\<lambda>k. (k, summarise new merge (filter (\<lambda>x. key x = k) xs))) (firsts (map key xs))"

text \<open>The line items with a given merge key, and the records of a given customer.\<close>

definition itemsOfKey :: "string option \<Rightarrow> sale list \<Rightarrow> saleItem list" where
  "itemsOfKey k sales = filter (\<lambda>i. productKey i = k) (allItems sales)"

definition salesOfKey :: "string \<Rightarrow> sale list \<Rightarrow> sale list" where
  "salesOfKey k sales = filter (\<lambda>s. customerKey s = k) sales"

text \<open>
  The defaulted quantities and total prices of all line items, and the defaulted total
  amounts of records, in the order of the input.
\<close>

definition quantitiesOf :: "saleItem list \<Rightarrow> rat list" where
  "quantitiesOf xs = map (\<lambda>i. or_default 0 (quantity i)) xs"

definition totalPricesOf :: "saleItem list \<Rightarrow> rat list" where
  "totalPricesOf xs = map (\<lambda>i. or_default 0 (total_price i)) xs"

definition totalAmountsOf :: "sale list \<Rightarrow> rat list" where
  "totalAmountsOf xs = map (\<lambda>s. or_default 0 (total_amount s)) xs"

text \<open>
  The numbers of a list added up as the code does it: from the first on, one rounded
  addition for each further number.
\<close>

fun js_sum :: "rat list \<Rightarrow> rat" where
  "js_sum [] = 0"
| "js_sum (v # vs) = foldl js_add v vs"

text \<open>
  Amounts for which no addition rounds: whole numbers whose absolute values add up to
  at most \<open>2 ^ 53\<close>.
\<close>

definition exact_amounts :: "rat list \<Rightarrow> bool" where
  "exact_amounts vs \<longleftrightarrow> (\<forall>v\<in>set vs. v \<in> \<int>) \<and> sum_list (map abs vs) \<le> 2 ^ 53"

text \<open>
  A line item and a record with every absent number replaced by an explicit zero.
\<close>

definition fill_item :: "saleItem \<Rightarrow> saleItem" where
  "fill_item i =
     i\<lparr> quantity := Some (or_default 0 (quantity i)),
        unit_price := Some (or_default 0 (unit_price i)),
        total_price := Some (or_default 0 (total_price i)) \<rparr>"

definition fill_sale :: "sale \<Rightarrow> sale" where
  "fill_sale s =
     s\<lparr> items := map_option (map fill_item) (items s),
        total_amount := Some (or_default 0 (total_amount s)) \<rparr>"

text \<open>
  The totals of a product summary and of a customer summary, and the parts of a
  customer summary that involve no arithmetic on amounts.
\<close>

definition productTotals :: "productSold \<Rightarrow> rat \<times> rat \<times> jsnum" where
  "productTotals p = (ps_quantity p, ps_revenue p, ps_avgPrice p)"

definition customerTotals :: "customerPurchase \<Rightarrow> string \<times> nat \<times> rat \<times> string option set" where
  "customerTotals c = (cp_name c, cp_orders c, cp_totalSpent c, set (cp_products c))"

definition customerCounts :: "customerPurchase \<Rightarrow> string \<times> nat \<times> string option set" where
  "customerCounts c = (cp_name c, cp_orders c, set (cp_products c))"

section \<open>Example inputs\<close>

definition an_item ::
  "string option \<Rightarrow> string option \<Rightarrow> rat option \<Rightarrow> rat option \<Rightarrow> rat option \<Rightarrow> saleItem" where
  "an_item n k q u t =
     \<lparr> product_name = n, product_sku = k, quantity = q, unit_price = u, total_price = t,
       category = None \<rparr>"

definition a_sale ::
  "string option \<Rightarrow> string option \<Rightarrow> saleItem list \<Rightarrow> rat option \<Rightarrow> sale" where
  "a_sale n p is a =
     \<lparr> customer_name = n, customer_phone = p, customer_type = None, items = Some is,
       total_amount = a \<rparr>"

text \<open>
  Two orders of Alice for the product with SKU A1, under two names, and a sale with
  nothing filled in.
\<close>

definition widget_item :: saleItem where
  "widget_item = an_item (Some ''Widget'') (Some ''A1'') (Some 2) (Some 50) (Some 100)"

definition gadget_item :: saleItem where
  "gadget_item = an_item (Some ''Gadget'') (Some ''A1'') (Some 3) (Some 50) (Some 150)"

definition alice1 :: sale where
  "alice1 = a_sale (Some ''Alice'') (Some ''0300'') [widget_item] (Some 100)"

definition alice2 :: sale where
  "alice2 = a_sale (Some ''Alice'') (Some ''0311'') [gadget_item] (Some 150)"

definition blank_item :: saleItem where
  "blank_item = an_item None None None None None"

definition blank_sale :: sale where
  "blank_sale = a_sale None None [blank_item] None"

text \<open>
  One sale of two nails at the unit price 10, sold for 15 in all, and a later sale of
  one more nail for 10.
\<close>

definition discount_sale :: sale where
  "discount_sale = a_sale (Some ''Bilal'') None
     [an_item (Some ''Nails'') (Some ''N1'') (Some 2) (Some 10) (Some 15)] (Some 15)"

definition nail_sale :: sale where
  "nail_sale = a_sale (Some ''Bilal'') None
     [an_item (Some ''Nails'') (Some ''N1'') (Some 1) (Some 10) (Some 10)] (Some 10)"

text \<open>One sale whose two line items name the same product.\<close>

definition hammer_sale :: sale where
  "hammer_sale = a_sale (Some ''Ali'') None
     [an_item (Some ''Hammer'') None (Some 1) (Some 500) (Some 500),
      an_item (Some ''Hammer'') None (Some 2) (Some 450) (Some 900)] (Some 1400)"

text \<open>One sale with two line items that have nothing filled in.\<close>

definition blank_twice :: sale where
  "blank_twice = a_sale None None [blank_item, blank_item] None"

text \<open>Three products with the revenues 300, 300 and 100, the cheapest sold first.\<close>

definition three_products :: sale where
  "three_products = a_sale (Some ''Ali'') None
     [an_item (Some ''Tape'') None (Some 1) (Some 100) (Some 100),
      an_item (Some ''Saw'') None (Some 1) (Some 300) (Some 300),
      an_item (Some ''Drill'') None (Some 1) (Some 300) (Some 300)] (Some 700)"

text \<open>
  Three line items without SKU: one without a name, one with the empty name and one
  whose name is "Unknown Product"; and two line items with neither SKU nor name.
\<close>

definition unnamed_item :: "rat \<Rightarrow> rat \<Rightarrow> saleItem" where
  "unnamed_item q t = an_item None None (Some q) None (Some t)"

definition unknown_sale :: sale where
  "unknown_sale = a_sale (Some ''Ali'') None
     [unnamed_item 1 40,
      an_item (Some []) None (Some 1) None (Some 50),
      an_item (Some ''Unknown Product'') None (Some 1) None (Some 60)] (Some 150)"

definition unnamed_sale :: sale where
  "unnamed_sale = a_sale (Some ''Ali'') None [unnamed_item 1 40, unnamed_item 2 80] (Some 120)"

text \<open>
  Amounts with decimals. \<open>fl (3 / 10)\<close> is the double that the literal
  \<^verbatim>\<open>0.3\<close> denotes. One sale of 0.3 of a rope and of 0.2 and 0.1 of a wire, and
  three sales to one customer for 0.1, 0.2 and 0.3.
\<close>

definition decimal_item :: "string \<Rightarrow> rat \<Rightarrow> saleItem" where
  "decimal_item k q = an_item (Some k) (Some k) (Some (fl q)) (Some 1) (Some (fl q))"

definition decimal_sale :: sale where
  "decimal_sale = a_sale (Some ''Ali'') None
     [decimal_item ''Rope'' (3 / 10), decimal_item ''Wire'' (2 / 10),
      decimal_item ''Wire'' (1 / 10)] (Some (fl (6 / 10)))"

definition paid :: "rat \<Rightarrow> sale" where
  "paid a = a_sale (Some ''Ali'') None [] (Some (fl a))"

text \<open>Unchecked data with an element that is null, and with items that are a string.\<close>

definition null_element :: "raw_sale option list option" where
  "null_element = Some [Some (raw_of_sale alice1), None]"

definition items_not_array :: "raw_sale option list option" where
  "items_not_array = Some [Some ((raw_of_sale alice1)\<lparr> raw_items := ItemsOther \<rparr>)]"

definition null_item :: "raw_sale option list option" where
  "null_item = Some [Some ((raw_of_sale alice1)\<lparr> raw_items := ItemsArray [Some widget_item, None] \<rparr>)]"

section \<open>Rounding\<close>

lemma binade_lower:
  assumes "x \<noteq> 0"
  shows "2 powi (binade x) \<le> \<bar>x\<bar>"
proof -
  obtain p q where pq: "quotient_of \<bar>x\<bar> = (p, q)"
    by (cases "quotient_of \<bar>x\<bar>")
  have q: "0 < q"
    using pq by (rule quotient_of_denom_pos)
  have x: "\<bar>x\<bar> = of_int p / of_int q"
    using pq by (rule quotient_of_div)
  have "0 < \<bar>x\<bar>"
    using assms by simp
  then have p: "0 < p"
    using q unfolding x by (simp add: zero_less_divide_iff)
  let ?d = "bitlen p - bitlen q"
  show ?thesis
  proof (cases "2 powi ?d \<le> \<bar>x\<bar>")
    case True
    then show ?thesis
      by (simp add: binade_def pq)
  next
    case False
    have bp: "1 \<le> bitlen p" and bq: "1 \<le> bitlen q"
      using p q by (simp_all add: bitlen_alt_def)
    have lo: "(2::rat) powi (bitlen p - 1) \<le> of_int p"
    proof -
      have "(2::int) ^ nat (bitlen p - 1) \<le> p"
        using bitlen_bounds[OF p] by simp
      then have "(of_int ((2::int) ^ nat (bitlen p - 1)) :: rat) \<le> of_int p"
        by (simp only: of_int_le_iff)
      then show ?thesis
        using bp by (simp add: power_int_def)
    qed
    have hi: "of_int q \<le> (2::rat) powi (bitlen q)"
    proof -
      have "q < (2::int) ^ nat (bitlen q)"
        using bitlen_bounds[OF q] by simp
      then have "(of_int q :: rat) \<le> of_int ((2::int) ^ nat (bitlen q))"
        by (simp only: of_int_le_iff less_imp_le)
      then show ?thesis
        using bq by (simp add: power_int_def)
    qed
    have "(2::rat) powi (?d - 1) = 2 powi ((bitlen p - 1) - bitlen q)"
      by (rule arg_cong[where f = "\<lambda>n. 2 powi n"]) simp
    also have "\<dots> = 2 powi (bitlen p - 1) / 2 powi (bitlen q)"
      by (rule power_int_diff) simp
    also have "\<dots> \<le> of_int p / of_int q"
      using lo hi p q by (intro frac_le) simp_all
    finally have "(2::rat) powi (?d - 1) \<le> of_int p / of_int q" .
    moreover have "binade x = ?d - 1"
      using False by (simp add: binade_def pq)
    ultimately show ?thesis
      by (simp only: x)
  qed
qed

lemma round_half_even_of_int [simp]: "round_half_even (of_int k) = k"
  by (simp add: round_half_even_def)

lemma round_half_even_pos: "1 \<le> m \<Longrightarrow> 1 \<le> round_half_even m"
proof -
  assume "1 \<le> m"
  then have "1 \<le> \<lfloor>m\<rfloor>"
    by (simp add: le_floor_iff)
  then show ?thesis
    by (simp add: round_half_even_def Let_def)
qed

lemma round_half_even_nonpos: "m \<le> 0 \<Longrightarrow> round_half_even m \<le> 0"
proof -
  assume m: "m \<le> 0"
  then have f: "\<lfloor>m\<rfloor> \<le> 0"
    by (simp add: floor_le_iff)
  show ?thesis
  proof (cases "\<lfloor>m\<rfloor> = 0")
    case True
    then have "m = 0"
      using of_int_floor_le[of m] m by simp
    then show ?thesis
      by (simp add: round_half_even_def)
  next
    case False
    with f have "\<lfloor>m\<rfloor> + 1 \<le> 0"
      by linarith
    then show ?thesis
      using f by (simp add: round_half_even_def Let_def)
  qed
qed

lemma fl_pos: "0 < x \<Longrightarrow> 0 < fl x"
proof -
  assume x: "0 < x"
  let ?u = "(2::rat) powi (binade x - 52)"
  have u: "0 < ?u"
    by (simp add: zero_less_power_int)
  have b: "(2::rat) powi (binade x) = ?u * 2 ^ 52"
    by (simp add: power_int_diff)
  have "2 powi (binade x) \<le> x"
    using binade_lower[of x] x by simp
  then have a: "?u * 2 ^ 52 \<le> x"
    unfolding b .
  have "?u * 1 \<le> ?u * 2 ^ 52"
    using u by (intro mult_left_mono) simp_all
  from this a have "?u * 1 \<le> x"
    by (rule order_trans)
  then have "1 \<le> x / ?u"
    using u by (simp add: pos_le_divide_eq mult.commute)
  then have "1 \<le> round_half_even (x / ?u)"
    by (rule round_half_even_pos)
  then have "0 < (of_int (round_half_even (x / ?u)) :: rat)"
    by simp
  then show ?thesis
    using x u by (simp add: fl_def Let_def)
qed

lemma fl_nonpos: "x \<le> 0 \<Longrightarrow> fl x \<le> 0"
proof -
  assume x: "x \<le> 0"
  let ?u = "(2::rat) powi (binade x - 52)"
  have u: "0 < ?u"
    by (simp add: zero_less_power_int)
  then have "x / ?u \<le> 0"
    using x by (simp add: divide_le_0_iff)
  then have "round_half_even (x / ?u) \<le> 0"
    by (rule round_half_even_nonpos)
  then have "(of_int (round_half_even (x / ?u)) :: rat) \<le> 0"
    by simp
  then show ?thesis
    using u by (simp add: fl_def Let_def mult_le_0_iff)
qed

lemma fl_le_0_iff: "fl x \<le> 0 \<longleftrightarrow> x \<le> 0"
  using fl_pos[of x] fl_nonpos[of x] by (cases "x \<le> 0") auto

lemma fl_of_int:
  assumes "\<bar>n\<bar> \<le> 2 ^ 53"
  shows "fl (of_int n) = of_int n"
proof (cases "n = 0")
  case True
  then show ?thesis by (simp add: fl_def)
next
  case False
  let ?x = "of_int n :: rat"
  let ?e = "binade ?x"
  have x0: "?x \<noteq> 0"
    using False by simp
  have lo: "2 powi ?e \<le> \<bar>?x\<bar>"
    using x0 by (rule binade_lower)
  have "\<bar>?x\<bar> \<le> 2 ^ 53"
    using assms by (metis of_int_abs of_int_le_iff of_int_numeral of_int_power)
  with lo have "(2::rat) powi ?e \<le> 2 powi 53"
    by simp
  then have e: "?e \<le> 53"
    by (rule power_int_le_imp_le_exp[rotated]) simp_all
  show ?thesis
  proof (cases "?e \<le> 52")
    case True
    then obtain j where j: "52 - ?e = int j"
      by (metis diff_ge_0_iff_ge nonneg_int_cases)
    then have u: "(2::rat) powi (?e - 52) = 1 / 2 ^ j"
      by (metis minus_diff_eq power_int_minus_divide power_int_of_nat)
    have "?x / (1 / 2 ^ j) = of_int (n * 2 ^ j)"
      by simp
    then have "round_half_even (?x / (1 / 2 ^ j)) = n * 2 ^ j"
      by (simp only: round_half_even_of_int)
    then show ?thesis
      using x0 by (simp add: fl_def Let_def u)
  next
    case False
    with e have e53: "?e = 53"
      by simp
    with lo assms have "\<bar>?x\<bar> = 2 ^ 53"
      using \<open>\<bar>?x\<bar> \<le> 2 ^ 53\<close> by simp
    then have "?x = 2 ^ 53 \<or> ?x = - (2 ^ 53)"
      by (simp add: abs_if split: if_splits)
    then have "n = 2 ^ 53 \<or> n = - (2 ^ 53)"
      by (metis of_int_eq_iff of_int_minus of_int_numeral of_int_power)
    then show ?thesis
      using e53 by (elim disjE) (simp_all add: fl_def Let_def round_half_even_def)
  qed
qed

lemma fl_numeral: "numeral k \<le> (9007199254740992::int) \<Longrightarrow> fl (numeral k) = numeral k"
  using fl_of_int[of "numeral k"] by simp

lemma fl_neg_numeral: "numeral k \<le> (9007199254740992::int) \<Longrightarrow> fl (- numeral k) = - numeral k"
  using fl_of_int[of "- numeral k"] by simp

lemma fl_0 [simp]: "fl 0 = 0"
  by (simp add: fl_def)

lemma fl_1 [simp]: "fl 1 = 1"
  using fl_of_int[of 1] by simp

lemma js_sub_le_0_iff: "js_sub a b \<le> 0 \<longleftrightarrow> a \<le> b"
  by (simp add: js_sub_def fl_le_0_iff)

lemma js_add_int:
  assumes "a \<in> \<int>" "b \<in> \<int>" "\<bar>a\<bar> + \<bar>b\<bar> \<le> 2 ^ 53"
  shows "js_add a b = a + b"
proof -
  from assms(1,2) obtain m n where a: "a = of_int m" and b: "b = of_int n"
    by (auto elim!: Ints_cases)
  have "\<bar>a + b\<bar> \<le> 2 ^ 53"
    using assms(3) by linarith
  then have "\<bar>m + n\<bar> \<le> 2 ^ 53"
    unfolding a b by (metis of_int_abs of_int_add of_int_le_iff of_int_numeral of_int_power)
  then have "fl (of_int (m + n)) = of_int (m + n)"
    by (rule fl_of_int)
  then show ?thesis
    by (simp add: js_add_def a b)
qed

section \<open>Grouping lemmas\<close>

lemma firsts_snoc: "firsts (ks @ [k]) = (if k \<in> set ks then firsts ks else firsts ks @ [k])"
  by (simp add: firsts_def)

lemma set_firsts [simp]: "set (firsts ks) = set ks"
  by (simp add: firsts_def)

lemma distinct_firsts [simp]: "distinct (firsts ks)"
  by (simp add: firsts_def)

lemma firsts_Nil [simp]: "firsts [] = []"
  by (simp add: firsts_def)

lemma map_of_tabulate:
  "map_of (map (\<lambda>k. (k, g k)) ks) k0 = (if k0 \<in> set ks then Some (g k0) else None)"
  by (induction ks) auto

lemma jsmap_set_fresh:
  "k0 \<notin> set ks \<Longrightarrow> jsmap_set k0 v (map (\<lambda>k. (k, g k)) ks) = map (\<lambda>k. (k, g k)) ks @ [(k0, v)]"
  by (induction ks) auto

lemma jsmap_set_present:
  "distinct ks \<Longrightarrow> k0 \<in> set ks \<Longrightarrow>
   jsmap_set k0 v (map (\<lambda>k. (k, g k)) ks) = map (\<lambda>k. (k, if k = k0 then v else g k)) ks"
  by (induction ks) auto

lemma summarise_single: "summarise new merge [x] = new x"
  by (simp add: summarise_def)

lemma summarise_snoc: "ys \<noteq> [] \<Longrightarrow> summarise new merge (ys @ [x]) = merge (summarise new merge ys) x"
  by (cases ys) (simp_all add: summarise_def)

lemma filter_key_nonempty: "k \<in> key ` set xs \<Longrightarrow> filter (\<lambda>x. key x = k) xs \<noteq> []"
  by (auto simp: filter_empty_conv)

lemma filter_key_empty: "k \<notin> key ` set xs \<Longrightarrow> filter (\<lambda>x. key x = k) xs = []"
  by (auto simp: filter_empty_conv)

lemma grouped_snoc:
  "grouped key new merge (xs @ [x]) = group_step key new merge (grouped key new merge xs) x"
proof (cases "key x \<in> key ` set xs")
  case True
  have ne: "filter (\<lambda>y. key y = key x) xs \<noteq> []"
    using True by (rule filter_key_nonempty)
  have lhs: "grouped key new merge (xs @ [x]) =
      map (\<lambda>k. (k, if k = key x then merge (summarise new merge (filter (\<lambda>y. key y = key x) xs)) x
                    else summarise new merge (filter (\<lambda>y. key y = k) xs))) (firsts (map key xs))"
    using True ne by (auto simp: grouped_def firsts_snoc summarise_snoc)
  show ?thesis
    using True unfolding lhs
    by (simp add: group_step_def grouped_def jsmap_get_def map_of_tabulate jsmap_set_present)
next
  case False
  have e: "filter (\<lambda>y. key y = key x) xs = []"
    using False by (rule filter_key_empty)
  have lhs: "grouped key new merge (xs @ [x]) =
      map (\<lambda>k. (k, summarise new merge (filter (\<lambda>y. key y = k) xs))) (firsts (map key xs))
      @ [(key x, new x)]"
    using False e by (auto simp: grouped_def firsts_snoc summarise_single)
  show ?thesis
    using False unfolding lhs
    by (simp add: group_step_def grouped_def jsmap_get_def map_of_tabulate jsmap_set_fresh)
qed

lemma foldl_group_step:
  "foldl (group_step key new merge) [] xs = grouped key new merge xs"
proof (induction xs rule: rev_induct)
  case Nil
  show ?case by (simp add: grouped_def)
next
  case (snoc x xs)
  then show ?case by (simp add: grouped_snoc)
qed

lemma addItem_group: "addItem = group_step productKey newProduct mergeProduct"
  by (intro ext) (simp add: addItem_def group_step_def Let_def)

lemma addSale_group: "addSale = group_step customerKey newCustomer mergeCustomer"
  by (intro ext) (simp add: addSale_def group_step_def Let_def)

lemma foldl_concat_nested:
  "foldl (\<lambda>a xs. foldl f a xs) a xss = foldl f a (concat xss)"
  by (induction xss arbitrary: a) simp_all

lemma foldl_map_nested:
  "foldl (\<lambda>a x. foldl f a (g x)) a xs = foldl f a (concat (map g xs))"
  by (induction xs arbitrary: a) simp_all

lemma num_or0_or_default: "num_or0 x = or_default 0 x"
  by (simp add: num_or0_def or_default_def split: option.splits)

lemma saleItems_or_default: "saleItems s = or_default [] (items s)"
  by (simp add: saleItems_def or_default_def)

lemma allItems_saleItems: "allItems sales = concat (map saleItems sales)"
  by (simp add: allItems_def saleItems_or_default[abs_def])

lemma productMap_grouped:
  "productMap sales = grouped productKey newProduct mergeProduct (allItems sales)"
  by (simp add: productMap_def allItems_saleItems foldl_map_nested addItem_group foldl_group_step)

lemma customerMap_grouped:
  "customerMap sales = grouped customerKey newCustomer mergeCustomer sales"
  by (simp add: customerMap_def addSale_group foldl_group_step)

lemma insert_cmp_insort:
  "insert_cmp (\<lambda>a b. js_sub (f b) (f a)) x ys = insort_key (\<lambda>p. - f p) x ys"
  by (induction ys) (auto simp: js_sub_le_0_iff)

lemma array_sort_sort_key:
  "array_sort (\<lambda>a b. js_sub (f b) (f a)) xs = sort_key (\<lambda>p. - f p) xs"
  by (induction xs) (simp_all add: array_sort_def insert_cmp_insort)

lemma productsSold_sort:
  "productsSold (Some sales) = sort_key (\<lambda>p. - ps_revenue p) (map snd (productMap sales))"
  by (simp add: productsSold_def jsmap_values_def array_sort_sort_key)

lemma customerPurchases_sort:
  "customerPurchases (Some sales) = sort_key (\<lambda>c. - cp_totalSpent c) (map snd (customerMap sales))"
  by (simp add: customerPurchases_def jsmap_values_def array_sort_sort_key)

lemma sum_list_pick_absent:
  "k0 \<notin> set ks \<Longrightarrow>
   sum_list (map (\<lambda>k. if k = k0 then c else (0::'a::comm_monoid_add)) ks) = 0"
  by (induction ks) auto

lemma sum_list_pick:
  "distinct ks \<Longrightarrow> k0 \<in> set ks \<Longrightarrow>
   sum_list (map (\<lambda>k. if k = k0 then c else (0::'a::comm_monoid_add)) ks) = c"
  by (induction ks) (auto simp: sum_list_pick_absent)

lemma grouped_sum:
  fixes f :: "'x \<Rightarrow> 'a::comm_monoid_add"
  shows "sum_list (map (\<lambda>k. sum_list (map f (filter (\<lambda>x. key x = k) xs))) (firsts (map key xs)))
         = sum_list (map f xs)"
proof (induction xs rule: rev_induct)
  case Nil
  show ?case by simp
next
  case (snoc x xs)
  let ?ks = "firsts (map key xs)"
  let ?S = "\<lambda>k. sum_list (map f (filter (\<lambda>x. key x = k) xs))"
  have split: "\<And>k. sum_list (map f (filter (\<lambda>y. key y = k) (xs @ [x])))
      = ?S k + (if k = key x then f x else 0)"
    by auto
  show ?case
  proof (cases "key x \<in> set (map key xs)")
    case True
    then have "sum_list (map (\<lambda>k. if k = key x then f x else 0) ?ks) = f x"
      by (intro sum_list_pick) simp_all
    then show ?thesis
      using True snoc.IH by (simp add: split firsts_snoc sum_list_addf del: filter_append)
  next
    case False
    then have "sum_list (map (\<lambda>k. if k = key x then f x else 0) ?ks) = 0"
      by (intro sum_list_pick_absent) simp
    moreover have "?S (key x) = 0"
      using False by (simp add: filter_key_empty)
    ultimately show ?thesis
      using False snoc.IH by (simp add: split firsts_snoc sum_list_addf del: filter_append)
  qed
qed


section \<open>The entries of the two maps\<close>

lemma map_fst_grouped: "map fst (grouped key new merge xs) = firsts (map key xs)"
  by (simp add: grouped_def comp_def)

lemma distinct_grouped: "distinct (map fst (grouped key new merge xs))"
  by (simp add: map_fst_grouped)

lemma jsmap_get_grouped:
  "jsmap_get (grouped key new merge xs) k =
     (if k \<in> key ` set xs then Some (summarise new merge (filter (\<lambda>x. key x = k) xs)) else None)"
  by (simp add: jsmap_get_def grouped_def map_of_tabulate)

lemma in_grouped_iff:
  "(k, v) \<in> set (grouped key new merge xs) \<longleftrightarrow>
     k \<in> key ` set xs \<and> v = summarise new merge (filter (\<lambda>x. key x = k) xs)"
  by (auto simp: grouped_def)

lemma in_grouped_get:
  "(k, v) \<in> set (grouped key new merge xs) \<longleftrightarrow> jsmap_get (grouped key new merge xs) k = Some v"
  by (auto simp: in_grouped_iff jsmap_get_grouped)

lemma set_productsSold: "set (productsSold (Some sales)) = snd ` set (productMap sales)"
  by (simp add: productsSold_sort)

lemma set_customerPurchases: "set (customerPurchases (Some sales)) = snd ` set (customerMap sales)"
  by (simp add: customerPurchases_sort)

lemma foldl_mergeProduct_descr:
  "ps_name (foldl mergeProduct p is) = ps_name p"
  "ps_sku (foldl mergeProduct p is) = ps_sku p"
  "ps_category (foldl mergeProduct p is) = ps_category p"
  by (induction "is" arbitrary: p) (simp_all add: mergeProduct_def Let_def)

lemma summarise_product_descr:
  assumes "ys \<noteq> []"
  shows "ps_name (summarise newProduct mergeProduct ys) = str_or (product_name (hd ys)) ''Unknown Product''"
    and "ps_sku (summarise newProduct mergeProduct ys) = str_or (product_sku (hd ys)) ''-''"
    and "ps_category (summarise newProduct mergeProduct ys) = str_or (category (hd ys)) ''Uncategorized''"
  by (simp_all add: summarise_def foldl_mergeProduct_descr newProduct_def)

lemma foldl_mergeProduct_avgPrice:
  "is \<noteq> [] \<Longrightarrow> ps_avgPrice (foldl mergeProduct p is)
     = js_div (ps_revenue (foldl mergeProduct p is)) (ps_quantity (foldl mergeProduct p is))"
  by (induction "is" rule: rev_induct) (simp_all add: mergeProduct_def Let_def)

lemma summarise_avgPrice_single:
  "ps_avgPrice (summarise newProduct mergeProduct [i]) = Fin (num_or0 (unit_price i))"
  by (simp add: summarise_def newProduct_def)

lemma summarise_avgPrice_many:
  "2 \<le> length ys \<Longrightarrow> ps_avgPrice (summarise newProduct mergeProduct ys)
     = js_div (ps_revenue (summarise newProduct mergeProduct ys))
              (ps_quantity (summarise newProduct mergeProduct ys))"
proof -
  assume "2 \<le> length ys"
  then have "tl ys \<noteq> []"
    by (cases ys) auto
  then show ?thesis
    unfolding summarise_def by (rule foldl_mergeProduct_avgPrice)
qed

lemma foldl_mergeCustomer_descr:
  "cp_name (foldl mergeCustomer c ss) = cp_name c"
  "cp_phone (foldl mergeCustomer c ss) = cp_phone c"
  "cp_type (foldl mergeCustomer c ss) = cp_type c"
  by (induction ss arbitrary: c) (simp_all add: mergeCustomer_def)

lemma summarise_customer_descr:
  assumes "ys \<noteq> []"
  shows "cp_name (summarise newCustomer mergeCustomer ys) = customerKey (hd ys)"
    and "cp_phone (summarise newCustomer mergeCustomer ys) = str_or (customer_phone (hd ys)) ''-''"
    and "cp_type (summarise newCustomer mergeCustomer ys) = str_or (customer_type (hd ys)) ''Individual''"
  by (simp_all add: summarise_def foldl_mergeCustomer_descr newCustomer_def)

lemma hd_filter_key: "filter (\<lambda>x. key x = k) xs \<noteq> [] \<Longrightarrow> key (hd (filter (\<lambda>x. key x = k) xs)) = k"
  by (metis (mono_tags, lifting) hd_in_set mem_Collect_eq set_filter)


section \<open>Evaluation of the examples\<close>

lemmas example_defs = an_item_def a_sale_def widget_item_def gadget_item_def alice1_def alice2_def
  blank_item_def blank_sale_def discount_sale_def nail_sale_def hammer_sale_def
  three_products_def blank_twice_def unnamed_item_def unknown_sale_def unnamed_sale_def

lemmas code_defs = productsSold_def customerPurchases_def productMap_def customerMap_def
  addItem_def addSale_def Let_def jsmap_get_def jsmap_values_def array_sort_def
  newProduct_def mergeProduct_def newCustomer_def mergeCustomer_def productKey_def customerKey_def
  productNames_def new_Set_def str_or_def num_or0_def js_div_def js_add_def js_sub_def
  fl_numeral fl_neg_numeral saleItems_def
  allItems_def itemsOfKey_def salesOfKey_def or_default_def
  quantitiesOf_def totalPricesOf_def totalAmountsOf_def

section \<open>Empty input\<close>

text \<open>
  Claim C9: for the empty input sequence both aggregations return the empty list;
  so they do when \<^verbatim>\<open>salesData\<close> is absent.
\<close>

theorem empty_input_empty_output:
  "productsSold (Some []) = [] \<and> customerPurchases (Some []) = []
   \<and> productsSold None = [] \<and> customerPurchases None = []"
  by (simp add: productsSold_def customerPurchases_def productMap_def customerMap_def
      jsmap_values_def array_sort_def)

section \<open>Totals\<close>

text \<open>
  The quantity, revenue and amount spent of a summary are the values of its group,
  added in the order of the input with one rounded addition each. When the values are
  whole numbers of bounded size no addition rounds.
\<close>

lemma foldl_mergeProduct_quantity:
  "ps_quantity (foldl mergeProduct p is) = foldl js_add (ps_quantity p) (quantitiesOf is)"
  by (induction "is" arbitrary: p)
    (simp_all add: mergeProduct_def Let_def quantitiesOf_def num_or0_or_default)

lemma foldl_mergeProduct_revenue:
  "ps_revenue (foldl mergeProduct p is) = foldl js_add (ps_revenue p) (totalPricesOf is)"
  by (induction "is" arbitrary: p)
    (simp_all add: mergeProduct_def Let_def totalPricesOf_def num_or0_or_default)

lemma summarise_quantity:
  "ys \<noteq> [] \<Longrightarrow> ps_quantity (summarise newProduct mergeProduct ys) = js_sum (quantitiesOf ys)"
  by (cases ys)
    (simp_all add: summarise_def foldl_mergeProduct_quantity newProduct_def quantitiesOf_def
      num_or0_or_default)

lemma summarise_revenue:
  "ys \<noteq> [] \<Longrightarrow> ps_revenue (summarise newProduct mergeProduct ys) = js_sum (totalPricesOf ys)"
  by (cases ys)
    (simp_all add: summarise_def foldl_mergeProduct_revenue newProduct_def totalPricesOf_def
      num_or0_or_default)

lemma foldl_mergeCustomer_orders:
  "cp_orders (foldl mergeCustomer c ss) = cp_orders c + length ss"
  by (induction ss arbitrary: c) (simp_all add: mergeCustomer_def)

lemma foldl_mergeCustomer_totalSpent:
  "cp_totalSpent (foldl mergeCustomer c ss) = foldl js_add (cp_totalSpent c) (totalAmountsOf ss)"
  by (induction ss arbitrary: c)
    (simp_all add: mergeCustomer_def totalAmountsOf_def num_or0_or_default)

lemma summarise_orders:
  "ys \<noteq> [] \<Longrightarrow> cp_orders (summarise newCustomer mergeCustomer ys) = length ys"
  by (cases ys) (simp_all add: summarise_def foldl_mergeCustomer_orders newCustomer_def)

lemma summarise_totalSpent:
  "ys \<noteq> [] \<Longrightarrow> cp_totalSpent (summarise newCustomer mergeCustomer ys) = js_sum (totalAmountsOf ys)"
  by (cases ys)
    (simp_all add: summarise_def foldl_mergeCustomer_totalSpent newCustomer_def totalAmountsOf_def
      num_or0_or_default)

lemma foldl_js_add_exact:
  assumes "a \<in> \<int>" "\<forall>v\<in>set vs. v \<in> \<int>" "\<bar>a\<bar> + sum_list (map abs vs) \<le> 2 ^ 53"
  shows "foldl js_add a vs = a + sum_list vs"
  using assms
proof (induction vs arbitrary: a)
  case Nil
  then show ?case by simp
next
  case (Cons v vs)
  have nn: "0 \<le> sum_list (map abs vs)"
    by (rule sum_list_nonneg) auto
  have v: "v \<in> \<int>"
    using Cons.prems(2) by simp
  have "\<bar>a\<bar> + \<bar>v\<bar> \<le> 2 ^ 53"
    using Cons.prems(3) nn by simp
  with Cons.prems(1) v have s: "js_add a v = a + v"
    by (rule js_add_int)
  have "foldl js_add (a + v) vs = (a + v) + sum_list vs"
  proof (rule Cons.IH)
    show "a + v \<in> \<int>"
      using Cons.prems(1) v by (rule Ints_add)
    show "\<forall>v\<in>set vs. v \<in> \<int>"
      using Cons.prems(2) by simp
    show "\<bar>a + v\<bar> + sum_list (map abs vs) \<le> 2 ^ 53"
      using Cons.prems(3) by simp
  qed
  then show ?case
    by (simp add: s add.assoc)
qed

lemma js_sum_exact: "exact_amounts vs \<Longrightarrow> js_sum vs = sum_list vs"
proof (cases vs)
  case Nil
  then show ?thesis by simp
next
  case (Cons v ws)
  assume "exact_amounts vs"
  then have "v \<in> \<int>" "\<forall>w\<in>set ws. w \<in> \<int>" "\<bar>v\<bar> + sum_list (map abs ws) \<le> 2 ^ 53"
    unfolding exact_amounts_def Cons by simp_all
  then have "foldl js_add v ws = v + sum_list ws"
    by (rule foldl_js_add_exact)
  then show ?thesis
    by (simp add: Cons)
qed

lemma sum_list_abs_filter:
  "sum_list (map abs (map f (filter P xs))) \<le> sum_list (map abs (map (f :: 'a \<Rightarrow> rat) xs))"
  by (induction xs) auto

lemma exact_amounts_filter:
  "exact_amounts (map f xs) \<Longrightarrow> exact_amounts (map f (filter P xs))"
  unfolding exact_amounts_def
  using sum_list_abs_filter[of f P xs] by auto

lemma sum_list_map_sort_key:
  fixes h :: "'x \<Rightarrow> 'a::comm_monoid_add"
  shows "sum_list (map h (sort_key f xs)) = sum_list (map h xs)"
proof -
  have "sum_mset (image_mset h (mset (sort_key f xs))) = sum_mset (image_mset h (mset xs))"
    by simp
  then show ?thesis
    by (simp only: mset_map[symmetric] sum_mset_sum_list)
qed

lemma grouped_values_sum:
  fixes h :: "'v \<Rightarrow> 'a::comm_monoid_add"
  assumes "\<And>k. k \<in> key ` set xs \<Longrightarrow>
     h (summarise new merge (filter (\<lambda>x. key x = k) xs))
       = sum_list (map f (filter (\<lambda>x. key x = k) xs))"
  shows "sum_list (map h (map snd (grouped key new merge xs))) = sum_list (map f xs)"
proof -
  have "sum_list (map h (map snd (grouped key new merge xs)))
      = sum_list (map (\<lambda>k. h (summarise new merge (filter (\<lambda>x. key x = k) xs))) (firsts (map key xs)))"
    by (simp add: grouped_def comp_def)
  also have "\<dots> = sum_list (map (\<lambda>k. sum_list (map f (filter (\<lambda>x. key x = k) xs))) (firsts (map key xs)))"
    by (intro arg_cong[where f = sum_list] map_cong refl assms) simp
  also have "\<dots> = sum_list (map f xs)"
    by (rule grouped_sum)
  finally show ?thesis .
qed

lemma length_as_sum: "length ys = sum_list (map (\<lambda>_. Suc 0) ys)"
  by (induction ys) simp_all

text \<open>
  Claim C1 says that the quantities, revenues and amounts spent of the summaries add
  up to those of the input. A sale of 0.3 of a rope and of 0.2 and 0.1 of a wire has
  the summaries 0.3 and 0.30000000000000004, since 0.2 + 0.1 rounds: their sum differs
  from the sum of the three quantities, whether the sums are exact or are themselves
  computed with rounded additions. The same happens to the revenues, and to the
  amounts 0.1, 0.2 and 0.7 of three sales to one customer.
\<close>

theorem rounding_breaks_totals_counterexample:
  "sum_list (map ps_quantity (productsSold (Some [decimal_sale])))
     \<noteq> sum_list (quantitiesOf (allItems [decimal_sale]))
   \<and> foldl js_add 0 (map ps_quantity (productsSold (Some [decimal_sale])))
     \<noteq> foldl js_add 0 (quantitiesOf (allItems [decimal_sale]))
   \<and> sum_list (map ps_revenue (productsSold (Some [decimal_sale])))
     \<noteq> sum_list (totalPricesOf (allItems [decimal_sale]))
   \<and> sum_list (map cp_totalSpent (customerPurchases (Some [paid (1 / 10), paid (2 / 10), paid (7 / 10)])))
     \<noteq> sum_list (totalAmountsOf [paid (1 / 10), paid (2 / 10), paid (7 / 10)])"
  by code_simp

text \<open>
  Claim C1, amended: the order counts of the customer summaries add up to the number
  of records, for every input. When the defaulted quantities of all line items are
  whole numbers whose absolute values add up to at most \<open>2 ^ 53\<close>, the
  quantities of the product summaries add up to the defaulted quantities of all line
  items; likewise the revenues and the defaulted total prices, and the amounts spent
  and the defaulted total amounts of the records.
\<close>

theorem aggregation_lossless_exact:
  "sum_list (map cp_orders (customerPurchases (Some sales))) = length sales
   \<and> (exact_amounts (quantitiesOf (allItems sales)) \<longrightarrow>
        sum_list (map ps_quantity (productsSold (Some sales)))
          = sum_list (quantitiesOf (allItems sales)))
   \<and> (exact_amounts (totalPricesOf (allItems sales)) \<longrightarrow>
        sum_list (map ps_revenue (productsSold (Some sales)))
          = sum_list (totalPricesOf (allItems sales)))
   \<and> (exact_amounts (totalAmountsOf sales) \<longrightarrow>
        sum_list (map cp_totalSpent (customerPurchases (Some sales)))
          = sum_list (totalAmountsOf sales))"
proof (intro conjI impI)
  have "sum_list (map cp_orders (customerPurchases (Some sales)))
      = sum_list (map (\<lambda>_. Suc 0) sales)"
    unfolding customerPurchases_sort sum_list_map_sort_key customerMap_grouped
    by (rule grouped_values_sum)
      (simp only: length_as_sum[symmetric], rule summarise_orders, rule filter_key_nonempty)
  then show "sum_list (map cp_orders (customerPurchases (Some sales))) = length sales"
    by (simp only: length_as_sum[symmetric])
next
  assume ex: "exact_amounts (quantitiesOf (allItems sales))"
  show "sum_list (map ps_quantity (productsSold (Some sales)))
          = sum_list (quantitiesOf (allItems sales))"
    unfolding productsSold_sort sum_list_map_sort_key productMap_grouped quantitiesOf_def
  proof (rule grouped_values_sum)
    fix k
    let ?F = "filter (\<lambda>i. productKey i = k) (allItems sales)"
    assume "k \<in> productKey ` set (allItems sales)"
    then have "?F \<noteq> []"
      by (rule filter_key_nonempty)
    then have "ps_quantity (summarise newProduct mergeProduct ?F) = js_sum (quantitiesOf ?F)"
      by (rule summarise_quantity)
    also have "\<dots> = sum_list (quantitiesOf ?F)"
      using ex unfolding quantitiesOf_def by (intro js_sum_exact exact_amounts_filter)
    finally show "ps_quantity (summarise newProduct mergeProduct ?F)
        = sum_list (map (\<lambda>i. or_default 0 (quantity i)) ?F)"
      by (simp only: quantitiesOf_def)
  qed
next
  assume ex: "exact_amounts (totalPricesOf (allItems sales))"
  show "sum_list (map ps_revenue (productsSold (Some sales)))
          = sum_list (totalPricesOf (allItems sales))"
    unfolding productsSold_sort sum_list_map_sort_key productMap_grouped totalPricesOf_def
  proof (rule grouped_values_sum)
    fix k
    let ?F = "filter (\<lambda>i. productKey i = k) (allItems sales)"
    assume "k \<in> productKey ` set (allItems sales)"
    then have "?F \<noteq> []"
      by (rule filter_key_nonempty)
    then have "ps_revenue (summarise newProduct mergeProduct ?F) = js_sum (totalPricesOf ?F)"
      by (rule summarise_revenue)
    also have "\<dots> = sum_list (totalPricesOf ?F)"
      using ex unfolding totalPricesOf_def by (intro js_sum_exact exact_amounts_filter)
    finally show "ps_revenue (summarise newProduct mergeProduct ?F)
        = sum_list (map (\<lambda>i. or_default 0 (total_price i)) ?F)"
      by (simp only: totalPricesOf_def)
  qed
next
  assume ex: "exact_amounts (totalAmountsOf sales)"
  show "sum_list (map cp_totalSpent (customerPurchases (Some sales)))
          = sum_list (totalAmountsOf sales)"
    unfolding customerPurchases_sort sum_list_map_sort_key customerMap_grouped totalAmountsOf_def
  proof (rule grouped_values_sum)
    fix k
    let ?F = "filter (\<lambda>s. customerKey s = k) sales"
    assume "k \<in> customerKey ` set sales"
    then have "?F \<noteq> []"
      by (rule filter_key_nonempty)
    then have "cp_totalSpent (summarise newCustomer mergeCustomer ?F) = js_sum (totalAmountsOf ?F)"
      by (rule summarise_totalSpent)
    also have "\<dots> = sum_list (totalAmountsOf ?F)"
      using ex unfolding totalAmountsOf_def by (intro js_sum_exact exact_amounts_filter)
    finally show "cp_totalSpent (summarise newCustomer mergeCustomer ?F)
        = sum_list (map (\<lambda>s. or_default 0 (total_amount s)) ?F)"
      by (simp only: totalAmountsOf_def)
  qed
qed

text \<open>
  The two orders of Alice and the sale with nothing filled in: quantities 2, 3 and an
  absent one, summaries with the quantities 5 and 0.
\<close>

theorem aggregation_lossless_exact_witness:
  "exact_amounts (quantitiesOf (allItems [alice1, alice2, blank_sale]))
   \<and> exact_amounts (totalPricesOf (allItems [alice1, alice2, blank_sale]))
   \<and> exact_amounts (totalAmountsOf [alice1, alice2, blank_sale])
   \<and> quantitiesOf (allItems [alice1, alice2, blank_sale]) = [2, 3, 0]
   \<and> totalPricesOf (allItems [alice1, alice2, blank_sale]) = [100, 150, 0]
   \<and> totalAmountsOf [alice1, alice2, blank_sale] = [100, 150, 0]
   \<and> map ps_quantity (productsSold (Some [alice1, alice2, blank_sale])) = [5, 0]
   \<and> sum_list (map ps_quantity (productsSold (Some [alice1, alice2, blank_sale]))) = 5
   \<and> sum_list (map ps_revenue (productsSold (Some [alice1, alice2, blank_sale]))) = 250
   \<and> sum_list (map cp_orders (customerPurchases (Some [alice1, alice2, blank_sale]))) = 3
   \<and> sum_list (map cp_totalSpent (customerPurchases (Some [alice1, alice2, blank_sale]))) = 250"
proof -
  let ?S = "[alice1, alice2, blank_sale]"
  have q: "quantitiesOf (allItems ?S) = [2, 3, 0]"
    and r: "totalPricesOf (allItems ?S) = [100, 150, 0]"
    and a: "totalAmountsOf ?S = [100, 150, 0]"
    by (simp_all add: quantitiesOf_def totalPricesOf_def totalAmountsOf_def allItems_def
        or_default_def example_defs)
  have e: "exact_amounts [2, 3, 0]" "exact_amounts [100, 150, 0]"
    by (simp_all add: exact_amounts_def)
  have v: "map ps_quantity (productsSold (Some ?S)) = [5, 0]"
    by (simp add: code_defs example_defs)
  note t = aggregation_lossless_exact[of ?S, unfolded q r a]
  have "sum_list (map ps_quantity (productsSold (Some ?S))) = 5"
    using t e by simp
  moreover have "sum_list (map ps_revenue (productsSold (Some ?S))) = 250"
    using t e by simp
  moreover have "sum_list (map cp_orders (customerPurchases (Some ?S))) = 3"
    using t by simp
  moreover have "sum_list (map cp_totalSpent (customerPurchases (Some ?S))) = 250"
    using t e by simp
  ultimately show ?thesis
    unfolding q r a using e v by simp
qed

section \<open>Merge keys of products\<close>

lemma productKey_falsy_name:
  "productKey j \<in> {None, Some []} \<Longrightarrow> product_name j \<in> {None, Some []}"
  by (auto simp: productKey_def split: option.splits if_splits)

lemma length_grouped: "length (grouped key new merge xs) = card (key ` set xs)"
  using distinct_card[OF distinct_firsts, of "map key xs"] by (simp add: grouped_def)

text \<open>
  Claim C3 says that a line item with neither SKU nor name is merged under the label
  "Unknown Product". The label is only the name of the summary; the merge key is taken
  from the line item before the label is applied (line 149). Three line items without
  SKU, one without a name, one with the empty name and one named "Unknown Product",
  have three different keys and give three summaries, each named "Unknown Product".
\<close>

theorem unknown_product_three_summaries_counterexample:
  "map ps_name (productsSold (Some [unknown_sale]))
     = [''Unknown Product'', ''Unknown Product'', ''Unknown Product'']
   \<and> map ps_revenue (productsSold (Some [unknown_sale])) = [60, 50, 40]
   \<and> map fst (productMap [unknown_sale]) = [None, Some [], Some ''Unknown Product'']"
  by (simp add: code_defs example_defs)

text \<open>
  Claim C3, amended: the merge key of a line item is its SKU when that is present and
  not empty, otherwise its product name as it is. Every line item of the input has
  exactly one entry in the map, under its merge key (the keys of the map are
  distinct); that summary is in the output and accumulates the line items with the
  same merge key, and the output has one summary for each merge key. A line item with
  neither SKU nor name gets a summary named "Unknown Product", and its merge key is
  its absent or empty name, not that label.
\<close>

theorem merge_key_one_summary:
  assumes "i \<in> set (allItems sales)"
  shows "productKey i = (if product_sku i \<in> {None, Some []} then product_name i else product_sku i)
    \<and> (\<exists>p. jsmap_get (productMap sales) (productKey i) = Some p
          \<and> p \<in> set (productsSold (Some sales))
          \<and> ps_quantity p = js_sum (quantitiesOf (itemsOfKey (productKey i) sales))
          \<and> ps_revenue p = js_sum (totalPricesOf (itemsOfKey (productKey i) sales))
          \<and> (product_sku i \<in> {None, Some []} \<and> product_name i \<in> {None, Some []}
                \<longrightarrow> ps_name p = ''Unknown Product''
                    \<and> productKey i = product_name i
                    \<and> productKey i \<noteq> Some ''Unknown Product''))
    \<and> distinct (map fst (productMap sales))
    \<and> length (productsSold (Some sales)) = card (productKey ` set (allItems sales))"
proof (intro conjI)
  show key: "productKey i = (if product_sku i \<in> {None, Some []} then product_name i else product_sku i)"
    by (auto simp: productKey_def split: option.splits)
  let ?k = "productKey i"
  let ?F = "filter (\<lambda>j. productKey j = ?k) (allItems sales)"
  let ?p = "summarise newProduct mergeProduct ?F"
  have mem: "?k \<in> productKey ` set (allItems sales)"
    using assms by simp
  then have ne: "?F \<noteq> []"
    by (rule filter_key_nonempty)
  have get: "jsmap_get (productMap sales) ?k = Some ?p"
    using mem by (simp add: productMap_grouped jsmap_get_grouped)
  then have out: "?p \<in> set (productsSold (Some sales))"
    unfolding set_productsSold productMap_grouped in_grouped_get[symmetric]
    by (metis image_eqI snd_conv)
  have unknown: "ps_name ?p = ''Unknown Product''"
    if "product_sku i \<in> {None, Some []} \<and> product_name i \<in> {None, Some []}"
  proof -
    have "?k \<in> {None, Some []}"
      using that key by auto
    moreover have "productKey (hd ?F) = ?k"
      using ne by (rule hd_filter_key)
    ultimately have "product_name (hd ?F) \<in> {None, Some []}"
      by (intro productKey_falsy_name) simp
    then show ?thesis
      using ne by (auto simp: summarise_product_descr str_or_def)
  qed
  show "\<exists>p. jsmap_get (productMap sales) ?k = Some p
          \<and> p \<in> set (productsSold (Some sales))
          \<and> ps_quantity p = js_sum (quantitiesOf (itemsOfKey ?k sales))
          \<and> ps_revenue p = js_sum (totalPricesOf (itemsOfKey ?k sales))
          \<and> (product_sku i \<in> {None, Some []} \<and> product_name i \<in> {None, Some []}
                \<longrightarrow> ps_name p = ''Unknown Product''
                    \<and> productKey i = product_name i
                    \<and> productKey i \<noteq> Some ''Unknown Product'')"
    using get out ne unknown key
    by (intro exI[of _ ?p]) (auto simp: itemsOfKey_def summarise_quantity summarise_revenue)
  show "distinct (map fst (productMap sales))"
    by (simp add: productMap_grouped distinct_grouped)
  show "length (productsSold (Some sales)) = card (productKey ` set (allItems sales))"
    by (simp add: productsSold_sort productMap_grouped length_grouped)
qed

text \<open>
  The two line items with SKU A1 are merged into one summary with quantity 5 and
  revenue 250; the two line items with neither SKU nor name are merged into one
  summary named "Unknown Product", with quantity 3 and revenue 120.
\<close>

theorem merge_key_one_summary_witness:
  "gadget_item \<in> set (allItems [alice1, alice2, unnamed_sale])
   \<and> productKey gadget_item = Some ''A1''
   \<and> (\<exists>p. jsmap_get (productMap [alice1, alice2, unnamed_sale]) (Some ''A1'') = Some p
          \<and> p \<in> set (productsSold (Some [alice1, alice2, unnamed_sale]))
          \<and> ps_quantity p = 5 \<and> ps_revenue p = 250)
   \<and> unnamed_item 2 80 \<in> set (allItems [alice1, alice2, unnamed_sale])
   \<and> productKey (unnamed_item 2 80) = None
   \<and> (\<exists>p. jsmap_get (productMap [alice1, alice2, unnamed_sale]) None = Some p
          \<and> p \<in> set (productsSold (Some [alice1, alice2, unnamed_sale]))
          \<and> ps_quantity p = 3 \<and> ps_revenue p = 120 \<and> ps_name p = ''Unknown Product'')
   \<and> length (productsSold (Some [alice1, alice2, unnamed_sale])) = 2"
proof -
  let ?S = "[alice1, alice2, unnamed_sale]"
  have h1: "gadget_item \<in> set (allItems ?S)" and h2: "unnamed_item 2 80 \<in> set (allItems ?S)"
    by (simp_all add: allItems_def or_default_def example_defs)
  have k: "productKey gadget_item = Some ''A1''" "productKey (unnamed_item 2 80) = None"
    by (simp_all add: productKey_def example_defs)
  have s: "itemsOfKey (Some ''A1'') ?S = [widget_item, gadget_item]"
      "itemsOfKey None ?S = [unnamed_item 1 40, unnamed_item 2 80]"
    by (simp_all add: itemsOfKey_def allItems_def or_default_def productKey_def example_defs)
  have v: "js_sum (quantitiesOf [widget_item, gadget_item]) = 5"
      "js_sum (totalPricesOf [widget_item, gadget_item]) = 250"
      "js_sum (quantitiesOf [unnamed_item 1 40, unnamed_item 2 80]) = 3"
      "js_sum (totalPricesOf [unnamed_item 1 40, unnamed_item 2 80]) = 120"
    by (simp_all add: quantitiesOf_def totalPricesOf_def or_default_def js_add_def fl_numeral
        example_defs)
  have d: "product_sku (unnamed_item 2 80) = None" "product_name (unnamed_item 2 80) = None"
    by (simp_all add: example_defs)
  have c: "card (productKey ` set (allItems ?S)) = 2"
    by (simp add: allItems_def or_default_def productKey_def example_defs)
  note t1 = merge_key_one_summary[OF h1, unfolded k s v c]
  note t2 = merge_key_one_summary[OF h2, unfolded k s v c]
  have r1: "\<exists>p. jsmap_get (productMap ?S) (Some ''A1'') = Some p
          \<and> p \<in> set (productsSold (Some ?S)) \<and> ps_quantity p = 5 \<and> ps_revenue p = 250"
    using t1 by blast
  have r2: "\<exists>p. jsmap_get (productMap ?S) None = Some p
          \<and> p \<in> set (productsSold (Some ?S))
          \<and> ps_quantity p = 3 \<and> ps_revenue p = 120 \<and> ps_name p = ''Unknown Product''"
    using t2 by (simp add: d)
  have r3: "length (productsSold (Some ?S)) = 2"
    using t1 by blast
  show ?thesis
    using h1 h2 k r1 r2 r3 by blast
qed

section \<open>Ordering of the product summaries\<close>

text \<open>
  Claim C4: the product summaries are sorted by descending revenue; the summaries with
  one and the same revenue appear as they do among the values of the map, whose keys
  are in the order in which they were first encountered.
\<close>

theorem productsSold_sorted_stable:
  "sorted_wrt (\<lambda>a b. ps_revenue a \<ge> ps_revenue b) (productsSold (Some sales))
   \<and> (\<forall>r. filter (\<lambda>p. ps_revenue p = r) (productsSold (Some sales))
          = filter (\<lambda>p. ps_revenue p = r) (jsmap_values (productMap sales)))
   \<and> map fst (productMap sales) = firsts (map productKey (allItems sales))"
proof (intro conjI allI)
  have "sorted (map (\<lambda>p. - ps_revenue p) (productsSold (Some sales)))"
    unfolding productsSold_sort by (rule sorted_sort_key)
  then show "sorted_wrt (\<lambda>a b. ps_revenue a \<ge> ps_revenue b) (productsSold (Some sales))"
    by (simp add: sorted_map)
next
  fix r
  have "filter (\<lambda>p. - ps_revenue p = - r) (productsSold (Some sales))
      = filter (\<lambda>p. - ps_revenue p = - r) (map snd (productMap sales))"
    unfolding productsSold_sort by (rule sort_key_stable)
  then show "filter (\<lambda>p. ps_revenue p = r) (productsSold (Some sales))
          = filter (\<lambda>p. ps_revenue p = r) (jsmap_values (productMap sales))"
    by (simp add: jsmap_values_def)
next
  show "map fst (productMap sales) = firsts (map productKey (allItems sales))"
    by (simp add: productMap_grouped map_fst_grouped)
qed

text \<open>
The example of the revenues 300, 300 and 100, recorded in the order 100, 300, 300.
\<close>

theorem productsSold_sorted_stable_witness:
  "map ps_name (productsSold (Some [three_products])) = [''Saw'', ''Drill'', ''Tape'']
   \<and> map ps_revenue (productsSold (Some [three_products])) = [300, 300, 100]
   \<and> map fst (productMap [three_products]) = [Some ''Tape'', Some ''Saw'', Some ''Drill'']
   \<and> filter (\<lambda>p. ps_revenue p = 300) (productsSold (Some [three_products]))
       = filter (\<lambda>p. ps_revenue p = 300) (jsmap_values (productMap [three_products]))"
proof -
  have "map ps_name (productsSold (Some [three_products])) = [''Saw'', ''Drill'', ''Tape'']"
    by (simp add: code_defs example_defs)
  moreover have "map ps_revenue (productsSold (Some [three_products])) = [300, 300, 100]"
    by (simp add: code_defs example_defs)
  moreover have "map fst (productMap [three_products]) = [Some ''Tape'', Some ''Saw'', Some ''Drill'']"
    by (simp add: code_defs example_defs)
  ultimately show ?thesis
    using productsSold_sorted_stable[of "[three_products]"] by blast
qed

section \<open>Merge keys and totals of customers\<close>

text \<open>
  Claim C6: the merge key of a record is its customer name, and "Walk-in Customer"
  when the name is absent or empty. The summary of that key is in the output, carries
  the key as its name, counts one order for each record with that key, and its amount
  spent is the defaulted total amounts of these records, added in their order.
\<close>

theorem customer_key_and_counts:
  assumes "s \<in> set sales"
  shows "customerKey s =
      (if customer_name s \<in> {None, Some []} then ''Walk-in Customer'' else the (customer_name s))
    \<and> (\<exists>c. jsmap_get (customerMap sales) (customerKey s) = Some c
          \<and> c \<in> set (customerPurchases (Some sales))
          \<and> cp_name c = customerKey s
          \<and> cp_orders c = length (salesOfKey (customerKey s) sales)
          \<and> cp_totalSpent c = js_sum (totalAmountsOf (salesOfKey (customerKey s) sales)))"
proof (intro conjI)
  show "customerKey s =
      (if customer_name s \<in> {None, Some []} then ''Walk-in Customer'' else the (customer_name s))"
    by (auto simp: customerKey_def str_or_def split: option.splits)
  let ?k = "customerKey s"
  let ?F = "filter (\<lambda>t. customerKey t = ?k) sales"
  let ?c = "summarise newCustomer mergeCustomer ?F"
  have mem: "?k \<in> customerKey ` set sales"
    using assms by simp
  then have ne: "?F \<noteq> []"
    by (rule filter_key_nonempty)
  have get: "jsmap_get (customerMap sales) ?k = Some ?c"
    using mem by (simp add: customerMap_grouped jsmap_get_grouped)
  then have out: "?c \<in> set (customerPurchases (Some sales))"
    unfolding set_customerPurchases customerMap_grouped in_grouped_get[symmetric]
    by (metis image_eqI snd_conv)
  have name: "cp_name ?c = ?k"
    using ne by (simp add: summarise_customer_descr hd_filter_key)
  show "\<exists>c. jsmap_get (customerMap sales) ?k = Some c
          \<and> c \<in> set (customerPurchases (Some sales))
          \<and> cp_name c = ?k
          \<and> cp_orders c = length (salesOfKey ?k sales)
          \<and> cp_totalSpent c = js_sum (totalAmountsOf (salesOfKey ?k sales))"
    using get out ne name
    by (intro exI[of _ ?c]) (simp add: salesOfKey_def summarise_orders summarise_totalSpent)
qed

text \<open>
The two orders of Alice and the sale without a customer name.
\<close>

theorem customer_key_and_counts_witness:
  "alice1 \<in> set [alice1, alice2, blank_sale] \<and> blank_sale \<in> set [alice1, alice2, blank_sale]
   \<and> customerKey alice1 = ''Alice'' \<and> customerKey blank_sale = ''Walk-in Customer''
   \<and> (\<exists>c. jsmap_get (customerMap [alice1, alice2, blank_sale]) ''Alice'' = Some c
          \<and> c \<in> set (customerPurchases (Some [alice1, alice2, blank_sale]))
          \<and> cp_name c = ''Alice'' \<and> cp_orders c = 2 \<and> cp_totalSpent c = 250)
   \<and> (\<exists>c. jsmap_get (customerMap [alice1, alice2, blank_sale]) ''Walk-in Customer'' = Some c
          \<and> c \<in> set (customerPurchases (Some [alice1, alice2, blank_sale]))
          \<and> cp_name c = ''Walk-in Customer'' \<and> cp_orders c = 1 \<and> cp_totalSpent c = 0)"
proof -
  have h1: "alice1 \<in> set [alice1, alice2, blank_sale]" and h2: "blank_sale \<in> set [alice1, alice2, blank_sale]"
    by simp_all
  have k: "customerKey alice1 = ''Alice''" "customerKey alice2 = ''Alice''"
      "customerKey blank_sale = ''Walk-in Customer''"
    by (simp_all add: customerKey_def str_or_def example_defs)
  have s: "salesOfKey ''Alice'' [alice1, alice2, blank_sale] = [alice1, alice2]"
      "salesOfKey ''Walk-in Customer'' [alice1, alice2, blank_sale] = [blank_sale]"
    by (simp_all add: salesOfKey_def k)
  have a: "js_sum (totalAmountsOf [alice1, alice2]) = 250" "js_sum (totalAmountsOf [blank_sale]) = 0"
    by (simp_all add: totalAmountsOf_def or_default_def js_add_def fl_numeral example_defs)
  show ?thesis
    using h1 h2 customer_key_and_counts[OF h1, THEN conjunct2]
      customer_key_and_counts[OF h2, THEN conjunct2] unfolding k s
    by (simp add: a numeral_2_eq_2)
qed

section \<open>Average price\<close>

text \<open>
  Claim C2 says that the average price of every product summary is its revenue divided
  by its quantity, also for a merge key encountered once. The branch that merges a
  line item computes this quotient (line 155); the branch that creates the summary
  stores the unit price of the line item instead (line 163). One sale of two nails at
  the unit price 10, sold for 15 in all, gives the average price 10 and not 15 / 2;
  as soon as one more nail is sold the unit price is gone and the average price is
  the quotient 25 / 3.
\<close>

theorem single_item_avgPrice_is_unit_price:
  "productsSold (Some [discount_sale]) =
     [\<lparr> ps_name = ''Nails'', ps_sku = ''N1'', ps_category = ''Uncategorized'',
        ps_quantity = 2, ps_revenue = 15, ps_avgPrice = Fin 10 \<rparr>]
   \<and> js_div 15 2 = Fin (15 / 2)
   \<and> ps_avgPrice (hd (productsSold (Some [discount_sale])))
       \<noteq> js_div (ps_revenue (hd (productsSold (Some [discount_sale]))))
                (ps_quantity (hd (productsSold (Some [discount_sale]))))
   \<and> productsSold (Some [discount_sale, nail_sale]) =
     [\<lparr> ps_name = ''Nails'', ps_sku = ''N1'', ps_category = ''Uncategorized'',
        ps_quantity = 3, ps_revenue = 25, ps_avgPrice = js_div 25 3 \<rparr>]"
proof (intro conjI)
  show one: "productsSold (Some [discount_sale]) =
     [\<lparr> ps_name = ''Nails'', ps_sku = ''N1'', ps_category = ''Uncategorized'',
        ps_quantity = 2, ps_revenue = 15, ps_avgPrice = Fin 10 \<rparr>]"
    by (simp add: code_defs example_defs)
  show half: "js_div 15 2 = Fin (15 / 2)"
    by code_simp
  show "ps_avgPrice (hd (productsSold (Some [discount_sale])))
       \<noteq> js_div (ps_revenue (hd (productsSold (Some [discount_sale]))))
                (ps_quantity (hd (productsSold (Some [discount_sale]))))"
    unfolding one by (simp add: half)
  have "productsSold (Some [discount_sale, nail_sale]) =
     [\<lparr> ps_name = ''Nails'', ps_sku = ''N1'', ps_category = ''Uncategorized'',
        ps_quantity = 3, ps_revenue = 25, ps_avgPrice = Fin (fl (25 / 3)) \<rparr>]"
    by (simp add: code_defs example_defs)
  then show "productsSold (Some [discount_sale, nail_sale]) =
     [\<lparr> ps_name = ''Nails'', ps_sku = ''N1'', ps_category = ''Uncategorized'',
        ps_quantity = 3, ps_revenue = 25, ps_avgPrice = js_div 25 3 \<rparr>]"
    by (simp add: js_div_def)
qed

section \<open>Descriptive fields\<close>

text \<open>
  Claim C10: the descriptive fields come from the first occurrence. The name, SKU and
  category of a product summary are those of the first line item with its merge key,
  with the defaults "Unknown Product", "-" and "Uncategorized"; the phone and type of
  a customer summary are those of the first record with its key, with the defaults "-"
  and "Individual", and its name is the key. A later line item (record) that finds its
  key in the map replaces the entry by the merged object, which keeps these fields.
\<close>

theorem descriptive_fields_first_occurrence:
  "(\<forall>k p. jsmap_get (productMap sales) k = Some p \<longrightarrow>
       itemsOfKey k sales \<noteq> []
       \<and> ps_name p = str_or (product_name (hd (itemsOfKey k sales))) ''Unknown Product''
       \<and> ps_sku p = str_or (product_sku (hd (itemsOfKey k sales))) ''-''
       \<and> ps_category p = str_or (category (hd (itemsOfKey k sales))) ''Uncategorized'')
   \<and> (\<forall>k c. jsmap_get (customerMap sales) k = Some c \<longrightarrow>
       salesOfKey k sales \<noteq> []
       \<and> cp_name c = k
       \<and> cp_phone c = str_or (customer_phone (hd (salesOfKey k sales))) ''-''
       \<and> cp_type c = str_or (customer_type (hd (salesOfKey k sales))) ''Individual'')
   \<and> (\<forall>m i e. jsmap_get m (productKey i) = Some e \<longrightarrow>
       addItem m i = jsmap_set (productKey i) (mergeProduct e i) m
       \<and> ps_name (mergeProduct e i) = ps_name e
       \<and> ps_sku (mergeProduct e i) = ps_sku e
       \<and> ps_category (mergeProduct e i) = ps_category e)
   \<and> (\<forall>m s e. jsmap_get m (customerKey s) = Some e \<longrightarrow>
       addSale m s = jsmap_set (customerKey s) (mergeCustomer e s) m
       \<and> cp_name (mergeCustomer e s) = cp_name e
       \<and> cp_phone (mergeCustomer e s) = cp_phone e
       \<and> cp_type (mergeCustomer e s) = cp_type e)"
proof (intro conjI allI impI)
  fix k p
  assume "jsmap_get (productMap sales) k = Some p"
  then have mem: "k \<in> productKey ` set (allItems sales)"
    and p: "p = summarise newProduct mergeProduct (itemsOfKey k sales)"
    by (auto simp: productMap_grouped jsmap_get_grouped itemsOfKey_def split: if_splits)
  from mem show ne: "itemsOfKey k sales \<noteq> []"
    unfolding itemsOfKey_def by (rule filter_key_nonempty)
  show "ps_name p = str_or (product_name (hd (itemsOfKey k sales))) ''Unknown Product''"
    unfolding p using ne by (rule summarise_product_descr)
  show "ps_sku p = str_or (product_sku (hd (itemsOfKey k sales))) ''-''"
    unfolding p using ne by (rule summarise_product_descr)
  show "ps_category p = str_or (category (hd (itemsOfKey k sales))) ''Uncategorized''"
    unfolding p using ne by (rule summarise_product_descr)
next
  fix k c
  assume "jsmap_get (customerMap sales) k = Some c"
  then have mem: "k \<in> customerKey ` set sales"
    and c: "c = summarise newCustomer mergeCustomer (salesOfKey k sales)"
    by (auto simp: customerMap_grouped jsmap_get_grouped salesOfKey_def split: if_splits)
  from mem show ne: "salesOfKey k sales \<noteq> []"
    unfolding salesOfKey_def by (rule filter_key_nonempty)
  have "customerKey (hd (salesOfKey k sales)) = k"
    using ne unfolding salesOfKey_def by (rule hd_filter_key)
  then show "cp_name c = k"
    unfolding c using ne by (simp add: summarise_customer_descr)
  show "cp_phone c = str_or (customer_phone (hd (salesOfKey k sales))) ''-''"
    unfolding c using ne by (rule summarise_customer_descr)
  show "cp_type c = str_or (customer_type (hd (salesOfKey k sales))) ''Individual''"
    unfolding c using ne by (rule summarise_customer_descr)
qed (simp_all add: addItem_def addSale_def mergeProduct_def mergeCustomer_def Let_def)

text \<open>
  The two orders of Alice: the second names the product "Gadget" and has another
  phone number; the summaries keep "Widget" and the first number.
\<close>

theorem descriptive_fields_first_occurrence_witness:
  "jsmap_get (productMap [alice1, alice2]) (Some ''A1'') =
     Some \<lparr> ps_name = ''Widget'', ps_sku = ''A1'', ps_category = ''Uncategorized'',
            ps_quantity = 5, ps_revenue = 250, ps_avgPrice = Fin 50 \<rparr>
   \<and> map product_name (itemsOfKey (Some ''A1'') [alice1, alice2]) = [Some ''Widget'', Some ''Gadget'']
   \<and> ''Widget'' = str_or (product_name (hd (itemsOfKey (Some ''A1'') [alice1, alice2]))) ''Unknown Product''
   \<and> jsmap_get (customerMap [alice1, alice2]) ''Alice'' =
     Some \<lparr> cp_name = ''Alice'', cp_phone = ''0300'', cp_type = ''Individual'', cp_orders = 2,
            cp_totalSpent = 250, cp_products = [Some ''Widget'', Some ''Gadget''] \<rparr>
   \<and> map customer_phone (salesOfKey ''Alice'' [alice1, alice2]) = [Some ''0300'', Some ''0311'']
   \<and> ''0300'' = str_or (customer_phone (hd (salesOfKey ''Alice'' [alice1, alice2]))) ''-''
   \<and> addItem (productMap [alice1]) gadget_item =
       jsmap_set (productKey gadget_item)
         (mergeProduct (newProduct widget_item) gadget_item) (productMap [alice1])
   \<and> ps_name (mergeProduct (newProduct widget_item) gadget_item) = ps_name (newProduct widget_item)
   \<and> addSale (customerMap [alice1]) alice2 =
       jsmap_set (customerKey alice2)
         (mergeCustomer (newCustomer alice1) alice2) (customerMap [alice1])
   \<and> cp_phone (mergeCustomer (newCustomer alice1) alice2) = cp_phone (newCustomer alice1)"
proof -
  let ?S = "[alice1, alice2]"
  have a: "jsmap_get (productMap ?S) (Some ''A1'') =
     Some \<lparr> ps_name = ''Widget'', ps_sku = ''A1'', ps_category = ''Uncategorized'',
            ps_quantity = 5, ps_revenue = 250, ps_avgPrice = Fin 50 \<rparr>"
    by (simp add: code_defs example_defs)
  have c: "jsmap_get (customerMap ?S) ''Alice'' =
     Some \<lparr> cp_name = ''Alice'', cp_phone = ''0300'', cp_type = ''Individual'', cp_orders = 2,
            cp_totalSpent = 250, cp_products = [Some ''Widget'', Some ''Gadget''] \<rparr>"
    by (simp add: code_defs example_defs)
  have ia: "map product_name (itemsOfKey (Some ''A1'') ?S) = [Some ''Widget'', Some ''Gadget'']"
    by (simp add: code_defs example_defs)
  have sa: "map customer_phone (salesOfKey ''Alice'' ?S) = [Some ''0300'', Some ''0311'']"
    by (simp add: code_defs example_defs)
  have g: "jsmap_get (customerMap [alice1]) (customerKey alice2) = Some (newCustomer alice1)"
    by (simp add: customerMap_def addSale_def jsmap_get_def customerKey_def str_or_def example_defs)
  have f: "jsmap_get (productMap [alice1]) (productKey gadget_item) = Some (newProduct widget_item)"
    by (simp add: productMap_def addItem_def jsmap_get_def productKey_def saleItems_def example_defs)
  note t = descriptive_fields_first_occurrence[of ?S]
  note t3 = descriptive_fields_first_occurrence[of ?S, THEN conjunct2, THEN conjunct2, THEN conjunct1,
      rule_format, OF f]
  note t1 = t[THEN conjunct1, rule_format, OF a]
  note t2 = t[THEN conjunct2, THEN conjunct1, rule_format, OF c]
  note t4 = descriptive_fields_first_occurrence[of ?S, THEN conjunct2, THEN conjunct2, THEN conjunct2,
      rule_format, OF g]
  have n: "''Widget'' = str_or (product_name (hd (itemsOfKey (Some ''A1'') ?S))) ''Unknown Product''"
    using t1 by simp
  have p: "''0300'' = str_or (customer_phone (hd (salesOfKey ''Alice'' ?S))) ''-''"
    using t2 by simp
  show ?thesis
    using a c ia sa n p t3 t4 by blast
qed

section \<open>Products of a customer\<close>

text \<open>
  The products of a summary always contain exactly the product names of the records
  merged into it, and they are free of repetitions once a second record has been
  merged.
\<close>

lemma set_set_spread: "set (set_spread seen xs) = set seen \<union> set xs"
  by (induction seen xs rule: set_spread.induct) auto

lemma distinct_set_spread: "distinct seen \<Longrightarrow> distinct (set_spread seen xs)"
  by (induction seen xs rule: set_spread.induct) auto

lemma set_new_Set [simp]: "set (new_Set xs) = set xs"
  by (simp add: new_Set_def set_set_spread)

lemma distinct_new_Set [simp]: "distinct (new_Set xs)"
  by (simp add: new_Set_def distinct_set_spread)

lemma foldl_mergeCustomer_products:
  "set (cp_products (foldl mergeCustomer c ss))
     = set (cp_products c) \<union> (\<Union>s\<in>set ss. set (productNames s))"
  by (induction ss arbitrary: c) (auto simp: mergeCustomer_def)

lemma summarise_products_set:
  "ys \<noteq> [] \<Longrightarrow> set (cp_products (summarise newCustomer mergeCustomer ys))
     = (\<Union>s\<in>set ys. set (productNames s))"
  by (cases ys) (auto simp: summarise_def foldl_mergeCustomer_products newCustomer_def)

lemma foldl_mergeCustomer_distinct:
  "ss \<noteq> [] \<Longrightarrow> distinct (cp_products (foldl mergeCustomer c ss))"
  by (induction ss rule: rev_induct) (simp_all add: mergeCustomer_def)

lemma summarise_products_distinct:
  "2 \<le> length ys \<Longrightarrow> distinct (cp_products (summarise newCustomer mergeCustomer ys))"
proof -
  assume "2 \<le> length ys"
  then have "tl ys \<noteq> []"
    by (cases ys) auto
  then show ?thesis
    unfolding summarise_def by (rule foldl_mergeCustomer_distinct)
qed

lemma customer_products_merged:
  assumes "jsmap_get (customerMap sales) k = Some c"
  shows "set (cp_products c) = (\<Union>s\<in>set (salesOfKey k sales). set (productNames s))"
    and "2 \<le> length (salesOfKey k sales) \<Longrightarrow> distinct (cp_products c)"
proof -
  from assms have mem: "k \<in> customerKey ` set sales"
    and c: "c = summarise newCustomer mergeCustomer (salesOfKey k sales)"
    by (auto simp: customerMap_grouped jsmap_get_grouped salesOfKey_def split: if_splits)
  from mem have ne: "salesOfKey k sales \<noteq> []"
    unfolding salesOfKey_def by (rule filter_key_nonempty)
  show "set (cp_products c) = (\<Union>s\<in>set (salesOfKey k sales). set (productNames s))"
    unfolding c using ne by (rule summarise_products_set)
  show "2 \<le> length (salesOfKey k sales) \<Longrightarrow> distinct (cp_products c)"
    unfolding c by (rule summarise_products_distinct)
qed

text \<open>
  Claim C7 says that the products of a customer summary contain each product name
  once, also for a summary built from a single record. The branch that merges a record
  goes through \<^verbatim>\<open>new Set\<close>; the branch that creates the summary stores
  the names of the line items as they are. One sale with two line items for "Hammer"
  gives a summary that lists the name twice.
\<close>

theorem single_record_products_repeat:
  "customerPurchases (Some [hammer_sale]) =
     [\<lparr> cp_name = ''Ali'', cp_phone = ''-'', cp_type = ''Individual'', cp_orders = 1,
        cp_totalSpent = 1400, cp_products = [Some ''Hammer'', Some ''Hammer''] \<rparr>]
   \<and> \<not> distinct (cp_products (hd (customerPurchases (Some [hammer_sale]))))"
  by (simp add: code_defs example_defs)

section \<open>Exceptions and absent numbers\<close>

text \<open>
  On data that follows the interfaces the loops over unchecked data never reach one of
  their exceptions, and return what the two aggregations return.
\<close>

lemma forEach_raw_total:
  assumes "\<And>m x. f m (g x) = Inr (h m x)"
  shows "forEach_raw f m (map g xs) = Inr (foldl h m xs)"
  by (induction xs arbitrary: m) (simp_all add: assms)

lemma addItem_raw_Some: "addItem_raw m (Some i) = Inr (addItem m i)"
  by (simp add: addItem_raw_def)

lemma addItems_raw_checked:
  "addItems_raw m (Some (raw_of_sale s)) = Inr (foldl addItem m (saleItems s))"
proof (cases "items s")
  case None
  then show ?thesis
    by (simp add: addItems_raw_def raw_saleItems_def raw_of_sale_def saleItems_def)
next
  case (Some xs)
  have "forEach_raw addItem_raw m (map Some xs) = Inr (foldl addItem m xs)"
    by (rule forEach_raw_total) (rule addItem_raw_Some)
  with Some show ?thesis
    by (simp add: addItems_raw_def raw_saleItems_def raw_of_sale_def saleItems_def)
qed

lemma those_map_Some: "those (map Some xs) = Some xs"
  by (induction xs) simp_all

lemma addSale_checked: "addSale m (checked_sale (raw_of_sale s) (saleItems s)) = addSale m s"
proof -
  let ?c = "checked_sale (raw_of_sale s) (saleItems s)"
  have k: "customerKey ?c = customerKey s"
    by (simp add: customerKey_def checked_sale_def raw_of_sale_def)
  have n: "productNames ?c = productNames s"
    by (simp add: productNames_def saleItems_def checked_sale_def)
  have "newCustomer ?c = newCustomer s"
    unfolding newCustomer_def k n by (simp add: checked_sale_def raw_of_sale_def)
  moreover have "\<And>e. mergeCustomer e ?c = mergeCustomer e s"
    unfolding mergeCustomer_def n by (simp add: checked_sale_def raw_of_sale_def)
  ultimately show ?thesis
    by (simp add: addSale_def k cong: option.case_cong)
qed

lemma addSale_raw_checked: "addSale_raw m (Some (raw_of_sale s)) = Inr (addSale m s)"
proof (cases "items s")
  case None
  have "addSale_raw m (Some (raw_of_sale s)) = Inr (addSale m (checked_sale (raw_of_sale s) []))"
    using None by (simp add: addSale_raw_def raw_saleItems_def raw_of_sale_def)
  also have "[] = saleItems s"
    using None by (simp add: saleItems_def)
  finally show ?thesis
    by (simp only: addSale_checked)
next
  case (Some xs)
  have "addSale_raw m (Some (raw_of_sale s)) = Inr (addSale m (checked_sale (raw_of_sale s) xs))"
    using Some by (simp add: addSale_raw_def raw_saleItems_def raw_of_sale_def those_map_Some)
  also have "xs = saleItems s"
    using Some by (simp add: saleItems_def)
  finally show ?thesis
    by (simp only: addSale_checked)
qed

lemma productsSold_raw_checked: "productsSold_raw (raw_of salesData) = Inr (productsSold salesData)"
proof (cases salesData)
  case None
  then show ?thesis
    by (simp add: productsSold_raw_def raw_of_def productsSold_def)
next
  case (Some sales)
  have "forEach_raw addItems_raw [] (map (\<lambda>s. Some (raw_of_sale s)) sales)
      = Inr (foldl (\<lambda>m s. foldl addItem m (saleItems s)) [] sales)"
    by (rule forEach_raw_total) (rule addItems_raw_checked)
  with Some show ?thesis
    by (simp add: productsSold_raw_def raw_of_def productsSold_def productMap_def)
qed

lemma customerPurchases_raw_checked:
  "customerPurchases_raw (raw_of salesData) = Inr (customerPurchases salesData)"
proof (cases salesData)
  case None
  then show ?thesis
    by (simp add: customerPurchases_raw_def raw_of_def customerPurchases_def)
next
  case (Some sales)
  have "forEach_raw addSale_raw [] (map (\<lambda>s. Some (raw_of_sale s)) sales)
      = Inr (foldl addSale [] sales)"
    by (rule forEach_raw_total) (rule addSale_raw_checked)
  with Some show ?thesis
    by (simp add: customerPurchases_raw_def raw_of_def customerPurchases_def customerMap_def)
qed

lemma num_or0_filled [simp]: "num_or0 (Some (or_default 0 x)) = num_or0 x"
  by (simp add: num_or0_def or_default_def split: option.splits)

lemma fill_item_key: "productKey (fill_item i) = productKey i"
  by (simp add: productKey_def fill_item_def split: option.splits)

lemma fill_item_new: "newProduct (fill_item i) = newProduct i"
  by (simp add: newProduct_def fill_item_def)

lemma fill_item_merge: "mergeProduct e (fill_item i) = mergeProduct e i"
  by (simp add: mergeProduct_def fill_item_def)

lemma addItem_fill: "addItem m (fill_item i) = addItem m i"
  by (simp add: addItem_def fill_item_key fill_item_new fill_item_merge cong: option.case_cong)

lemma foldl_addItem_fill: "foldl addItem m (map fill_item is) = foldl addItem m is"
  by (induction "is" arbitrary: m) (simp_all add: addItem_fill)

lemma saleItems_fill: "saleItems (fill_sale s) = map fill_item (saleItems s)"
  by (simp add: saleItems_def fill_sale_def split: option.splits)

lemma productMap_fill_aux:
  "foldl (\<lambda>m s. foldl addItem m (saleItems s)) m (map fill_sale sales)
   = foldl (\<lambda>m s. foldl addItem m (saleItems s)) m sales"
  by (induction sales arbitrary: m) (simp_all add: saleItems_fill foldl_addItem_fill)

lemma productMap_fill: "productMap (map fill_sale sales) = productMap sales"
  by (simp add: productMap_def productMap_fill_aux)

lemma fill_item_name: "product_name (fill_item i) = product_name i"
  by (simp add: fill_item_def)

lemma addSale_fill: "addSale m (fill_sale s) = addSale m s"
proof -
  have k: "customerKey (fill_sale s) = customerKey s"
    by (simp add: customerKey_def fill_sale_def)
  have n: "productNames (fill_sale s) = productNames s"
    by (simp add: productNames_def saleItems_fill comp_def fill_item_name)
  have "newCustomer (fill_sale s) = newCustomer s"
    unfolding newCustomer_def k n by (simp add: fill_sale_def)
  moreover have "\<And>e. mergeCustomer e (fill_sale s) = mergeCustomer e s"
    unfolding mergeCustomer_def n by (simp add: fill_sale_def)
  ultimately show ?thesis
    by (simp add: addSale_def k cong: option.case_cong)
qed

lemma customerMap_fill_aux: "foldl addSale m (map fill_sale sales) = foldl addSale m sales"
  by (induction sales arbitrary: m) (simp_all add: addSale_fill)

text \<open>
  Claim C8: on every input that follows the interfaces both aggregations return a
  result and throw no exception; both return the same result when every absent
  quantity, unit price, total price and total amount is replaced by zero; and when the
  quantity of a summary is zero after a merge, the division yields a number that is
  not finite instead of failing.
\<close>

theorem never_throws_absent_is_zero:
  "productsSold_raw (raw_of salesData) = Inr (productsSold salesData)
   \<and> customerPurchases_raw (raw_of salesData) = Inr (customerPurchases salesData)
   \<and> productsSold (Some (map fill_sale sales)) = productsSold (Some sales)
   \<and> customerPurchases (Some (map fill_sale sales)) = customerPurchases (Some sales)
   \<and> (ps_quantity (mergeProduct e i) = 0 \<longrightarrow>
         ps_avgPrice (mergeProduct e i) \<in> {NaN, PosInf, NegInf})"
proof (intro conjI impI)
  show "productsSold_raw (raw_of salesData) = Inr (productsSold salesData)"
    by (rule productsSold_raw_checked)
  show "customerPurchases_raw (raw_of salesData) = Inr (customerPurchases salesData)"
    by (rule customerPurchases_raw_checked)
  show "productsSold (Some (map fill_sale sales)) = productsSold (Some sales)"
    by (simp add: productsSold_def productMap_fill)
  show "customerPurchases (Some (map fill_sale sales)) = customerPurchases (Some sales)"
    by (simp add: customerPurchases_def customerMap_def customerMap_fill_aux)
next
  assume "ps_quantity (mergeProduct e i) = 0"
  then show "ps_avgPrice (mergeProduct e i) \<in> {NaN, PosInf, NegInf}"
    by (simp add: mergeProduct_def Let_def js_div_def)
qed

text \<open>
  Two line items with nothing filled in, followed by the first order of Alice: the
  summary of the two has the quantity zero and the average price \<^verbatim>\<open>0 / 0\<close>.
  Data with a null element, with items that are not an array, or with a null line item
  ends in a \<^verbatim>\<open>TypeError\<close>.
\<close>

theorem never_throws_absent_is_zero_witness:
  "productsSold_raw (raw_of (Some [blank_twice, alice1])) =
     Inr [\<lparr> ps_name = ''Widget'', ps_sku = ''A1'', ps_category = ''Uncategorized'',
            ps_quantity = 2, ps_revenue = 100, ps_avgPrice = Fin 50 \<rparr>,
          \<lparr> ps_name = ''Unknown Product'', ps_sku = ''-'', ps_category = ''Uncategorized'',
            ps_quantity = 0, ps_revenue = 0, ps_avgPrice = NaN \<rparr>]
   \<and> customerPurchases_raw (raw_of (Some [blank_twice, alice1])) =
     Inr [\<lparr> cp_name = ''Alice'', cp_phone = ''0300'', cp_type = ''Individual'', cp_orders = 1,
            cp_totalSpent = 100, cp_products = [Some ''Widget''] \<rparr>,
          \<lparr> cp_name = ''Walk-in Customer'', cp_phone = ''-'', cp_type = ''Individual'',
            cp_orders = 1, cp_totalSpent = 0, cp_products = [None, None] \<rparr>]
   \<and> productsSold (Some (map fill_sale [blank_twice, alice1])) = productsSold (Some [blank_twice, alice1])
   \<and> customerPurchases (Some (map fill_sale [blank_twice, alice1]))
       = customerPurchases (Some [blank_twice, alice1])
   \<and> quantity (fill_item blank_item) = Some 0
   \<and> ps_quantity (mergeProduct (newProduct blank_item) blank_item) = 0
   \<and> ps_avgPrice (mergeProduct (newProduct blank_item) blank_item) \<in> {NaN, PosInf, NegInf}
   \<and> productsSold_raw null_element = Inl TypeError
   \<and> productsSold_raw items_not_array = Inl TypeError
   \<and> customerPurchases_raw null_item = Inl TypeError"
proof -
  let ?S = "[blank_twice, alice1]"
  have p: "productsSold (Some ?S) =
         [\<lparr> ps_name = ''Widget'', ps_sku = ''A1'', ps_category = ''Uncategorized'',
            ps_quantity = 2, ps_revenue = 100, ps_avgPrice = Fin 50 \<rparr>,
          \<lparr> ps_name = ''Unknown Product'', ps_sku = ''-'', ps_category = ''Uncategorized'',
            ps_quantity = 0, ps_revenue = 0, ps_avgPrice = NaN \<rparr>]"
    by (simp add: code_defs example_defs)
  have c: "customerPurchases (Some ?S) =
         [\<lparr> cp_name = ''Alice'', cp_phone = ''0300'', cp_type = ''Individual'', cp_orders = 1,
            cp_totalSpent = 100, cp_products = [Some ''Widget''] \<rparr>,
          \<lparr> cp_name = ''Walk-in Customer'', cp_phone = ''-'', cp_type = ''Individual'',
            cp_orders = 1, cp_totalSpent = 0, cp_products = [None, None] \<rparr>]"
    by (simp add: code_defs example_defs)
  have f: "quantity (fill_item blank_item) = Some 0"
    by (simp add: fill_item_def or_default_def example_defs)
  have z: "ps_quantity (mergeProduct (newProduct blank_item) blank_item) = 0"
    by (simp add: mergeProduct_def newProduct_def num_or0_def js_add_def Let_def example_defs)
  have e: "productsSold_raw null_element = Inl TypeError"
      "productsSold_raw items_not_array = Inl TypeError"
      "customerPurchases_raw null_item = Inl TypeError"
    by (simp_all add: productsSold_raw_def customerPurchases_raw_def addItems_raw_def
        addSale_raw_def addItem_raw_def raw_saleItems_def raw_of_sale_def null_element_def
        items_not_array_def null_item_def example_defs)
  note t = never_throws_absent_is_zero[of "Some ?S" ?S "newProduct blank_item" blank_item]
  have r1: "productsSold_raw (raw_of (Some ?S)) = Inr (productsSold (Some ?S))"
    and r2: "customerPurchases_raw (raw_of (Some ?S)) = Inr (customerPurchases (Some ?S))"
    and r3: "productsSold (Some (map fill_sale ?S)) = productsSold (Some ?S)"
    and r4: "customerPurchases (Some (map fill_sale ?S)) = customerPurchases (Some ?S)"
    and r5: "ps_avgPrice (mergeProduct (newProduct blank_item) blank_item) \<in> {NaN, PosInf, NegInf}"
    using t z by blast+
  show ?thesis
    unfolding r1 r2 p c using r3 r4 r5 f z e p c by simp
qed

section \<open>Permuted input\<close>

lemma mset_firsts: "mset (firsts ks) = mset_set (set ks)"
  using mset_set_set[OF distinct_firsts, of ks] by simp

lemma grouped_mset_cong:
  assumes xs: "mset xs = mset xs'"
    and h: "\<And>k ys zs. ys \<noteq> [] \<Longrightarrow> mset ys = mset zs \<Longrightarrow> \<forall>x\<in>set ys. key x = k \<Longrightarrow>
              mset ys \<subseteq># mset xs \<Longrightarrow> h (summarise new merge ys) = h (summarise new merge zs)"
  shows "mset (map (\<lambda>(k, v). (k, h v)) (grouped key new merge xs))
       = mset (map (\<lambda>(k, v). (k, h v)) (grouped key new merge xs'))"
proof -
  let ?g = "\<lambda>xs k. (k, h (summarise new merge (filter (\<lambda>x. key x = k) xs)))"
  have sets: "set xs = set xs'"
    using xs by (rule mset_eq_setD)
  have g: "?g xs k = ?g xs' k" if "k \<in> key ` set xs" for k
  proof -
    have "filter (\<lambda>x. key x = k) xs \<noteq> []"
      using that by (rule filter_key_nonempty)
    moreover have "mset (filter (\<lambda>x. key x = k) xs) = mset (filter (\<lambda>x. key x = k) xs')"
      using xs by (simp only: mset_filter)
    moreover have "\<forall>x\<in>set (filter (\<lambda>x. key x = k) xs). key x = k"
      by simp
    moreover have "mset (filter (\<lambda>x. key x = k) xs) \<subseteq># mset xs"
      by (simp only: mset_filter multiset_filter_subset)
    ultimately have "h (summarise new merge (filter (\<lambda>x. key x = k) xs))
        = h (summarise new merge (filter (\<lambda>x. key x = k) xs'))"
      by (rule h)
    then show ?thesis
      by simp
  qed
  have "mset (map (\<lambda>(k, v). (k, h v)) (grouped key new merge xs))
      = image_mset (?g xs) (mset_set (key ` set xs))"
    by (simp add: grouped_def comp_def mset_firsts)
  also have "\<dots> = image_mset (?g xs') (mset_set (key ` set xs))"
    by (intro image_mset_cong g) (simp add: finite_set_mset_mset_set)
  also have "\<dots> = mset (map (\<lambda>(k, v). (k, h v)) (grouped key new merge xs'))"
    by (simp add: grouped_def comp_def mset_firsts sets)
  finally show ?thesis .
qed

lemma mset_map_fst_grouped:
  "mset xs = mset xs' \<Longrightarrow>
   mset (map fst (grouped key new merge xs)) = mset (map fst (grouped key new merge xs'))"
proof -
  assume "mset xs = mset xs'"
  then have "set xs = set xs'"
    by (rule mset_eq_setD)
  then show ?thesis
    by (simp add: map_fst_grouped mset_firsts)
qed

lemma mset_allItems: "mset sales = mset sales' \<Longrightarrow> mset (allItems sales) = mset (allItems sales')"
proof -
  assume a: "mset sales = mset sales'"
  have "mset (allItems xs) = sum_mset (image_mset (\<lambda>s. mset (or_default [] (items s))) (mset xs))" for xs
    by (induction xs) (simp_all add: allItems_def)
  with a show ?thesis by simp
qed

lemma sum_list_mset_cong:
  fixes f :: "'a \<Rightarrow> 'b::comm_monoid_add"
  shows "mset ys = mset zs \<Longrightarrow> sum_list (map f ys) = sum_list (map f zs)"
  by (metis mset_map sum_mset_sum_list)

lemma sum_mset_abs_nonneg: "0 \<le> sum_mset (image_mset (\<lambda>x. \<bar>f x :: rat\<bar>) D)"
  by (induction D) simp_all

lemma sum_list_abs_mset:
  "sum_list (map abs (map f xs)) = sum_mset (image_mset (\<lambda>x. \<bar>f x :: rat\<bar>) (mset xs))"
proof -
  have "sum_list (map abs (map f xs)) = sum_list (map (\<lambda>x. \<bar>f x\<bar>) xs)"
    by (simp add: comp_def)
  also have "\<dots> = sum_mset (mset (map (\<lambda>x. \<bar>f x\<bar>) xs))"
    by (simp only: sum_mset_sum_list)
  finally show ?thesis
    by simp
qed

lemma exact_amounts_sub:
  assumes "exact_amounts (map f xs)" "mset ys \<subseteq># mset xs"
  shows "exact_amounts (map f ys)"
proof -
  from assms(2) obtain D where D: "mset xs = mset ys + D"
    by (auto simp: mset_subset_eq_exists_conv)
  have "set ys \<subseteq> set xs"
    using assms(2) by (metis set_mset_mono set_mset_mset)
  then have ints: "\<forall>v\<in>set (map f ys). v \<in> \<int>"
    using assms(1) by (auto simp: exact_amounts_def)
  have "sum_list (map abs (map f xs)) = sum_mset (image_mset (\<lambda>x. \<bar>f x\<bar>) (mset xs))"
    by (rule sum_list_abs_mset)
  also have "\<dots> = sum_mset (image_mset (\<lambda>x. \<bar>f x\<bar>) (mset ys)) + sum_mset (image_mset (\<lambda>x. \<bar>f x\<bar>) D)"
    by (simp add: D)
  finally have "sum_mset (image_mset (\<lambda>x. \<bar>f x\<bar>) (mset ys)) \<le> sum_list (map abs (map f xs))"
    using sum_mset_abs_nonneg[of f D] by simp
  moreover have "sum_list (map abs (map f ys)) = sum_mset (image_mset (\<lambda>x. \<bar>f x\<bar>) (mset ys))"
    by (rule sum_list_abs_mset)
  ultimately have "sum_list (map abs (map f ys)) \<le> 2 ^ 53"
    using assms(1) by (simp add: exact_amounts_def)
  with ints show ?thesis
    by (simp add: exact_amounts_def)
qed

lemma js_sum_mset_cong:
  assumes "exact_amounts (map f ys)" "mset ys = mset zs"
  shows "js_sum (map f ys) = js_sum (map f zs)"
proof -
  have "exact_amounts (map f zs)"
    using assms by (intro exact_amounts_sub[of f ys zs]) simp_all
  then have "js_sum (map f zs) = sum_list (map f zs)"
    by (rule js_sum_exact)
  moreover have "js_sum (map f ys) = sum_list (map f ys)"
    using assms(1) by (rule js_sum_exact)
  ultimately show ?thesis
    using sum_list_mset_cong[OF assms(2), of f] by simp
qed

lemma product_totals_mset:
  assumes "ys \<noteq> []" "mset ys = mset zs"
    and "exact_amounts (quantitiesOf ys)" "exact_amounts (totalPricesOf ys)"
  shows "productTotals (summarise newProduct mergeProduct ys)
       = productTotals (summarise newProduct mergeProduct zs)"
proof -
  have zs: "zs \<noteq> []"
    using assms by auto
  have len: "length ys = length zs"
    using assms(2) by (rule mset_eq_length)
  have q: "ps_quantity (summarise newProduct mergeProduct ys)
         = ps_quantity (summarise newProduct mergeProduct zs)"
    using assms(1) zs js_sum_mset_cong[OF assms(3)[unfolded quantitiesOf_def] assms(2)]
    by (simp add: summarise_quantity quantitiesOf_def)
  have r: "ps_revenue (summarise newProduct mergeProduct ys)
         = ps_revenue (summarise newProduct mergeProduct zs)"
    using assms(1) zs js_sum_mset_cong[OF assms(4)[unfolded totalPricesOf_def] assms(2)]
    by (simp add: summarise_revenue totalPricesOf_def)
  have a: "ps_avgPrice (summarise newProduct mergeProduct ys)
         = ps_avgPrice (summarise newProduct mergeProduct zs)"
  proof (cases "length ys = 1")
    case True
    then obtain y where y: "ys = [y]"
      by (cases ys) auto
    with assms(2) have "zs = [y]"
      by simp
    with y show ?thesis by simp
  next
    case False
    with assms(1) have "2 \<le> length ys"
      by (cases ys) (auto simp: Suc_le_eq)
    then show ?thesis
      using len by (simp add: summarise_avgPrice_many q r)
  qed
  show ?thesis
    by (simp add: productTotals_def q r a)
qed

lemma customer_counts_mset:
  assumes "ys \<noteq> []" "mset ys = mset zs" "\<forall>x\<in>set ys. customerKey x = k"
  shows "customerCounts (summarise newCustomer mergeCustomer ys)
       = customerCounts (summarise newCustomer mergeCustomer zs)"
proof -
  have zs: "zs \<noteq> []"
    using assms by auto
  have sets: "set ys = set zs"
    using assms(2) by (rule mset_eq_setD)
  have "hd ys \<in> set ys"
    using assms(1) by simp
  moreover have "hd zs \<in> set ys"
    unfolding sets using zs by simp
  ultimately have "customerKey (hd ys) = k" "customerKey (hd zs) = k"
    using assms(3) by simp_all
  then have n: "customerKey (hd ys) = customerKey (hd zs)"
    by simp
  have len: "length ys = length zs"
    using assms(2) by (rule mset_eq_length)
  show ?thesis
    using assms(1) zs
    by (simp add: customerCounts_def summarise_customer_descr n summarise_orders len
        summarise_products_set sets)
qed

lemma customer_totals_mset:
  assumes "ys \<noteq> []" "mset ys = mset zs" "\<forall>x\<in>set ys. customerKey x = k"
    and "exact_amounts (totalAmountsOf ys)"
  shows "customerTotals (summarise newCustomer mergeCustomer ys)
       = customerTotals (summarise newCustomer mergeCustomer zs)"
proof -
  have zs: "zs \<noteq> []"
    using assms by auto
  have "customerCounts (summarise newCustomer mergeCustomer ys)
       = customerCounts (summarise newCustomer mergeCustomer zs)"
    using assms(1-3) by (rule customer_counts_mset)
  moreover have "cp_totalSpent (summarise newCustomer mergeCustomer ys)
       = cp_totalSpent (summarise newCustomer mergeCustomer zs)"
    using assms(1) zs js_sum_mset_cong[OF assms(4)[unfolded totalAmountsOf_def] assms(2)]
    by (simp add: summarise_totalSpent totalAmountsOf_def)
  ultimately show ?thesis
    by (simp add: customerTotals_def customerCounts_def)
qed

lemma image_mset_values:
  "image_mset h (mset (map snd m)) = image_mset snd (mset (map (\<lambda>(k, v). (k, h v)) m))"
  by (induction m) auto

text \<open>
  Claim C5 says that a permutation of the input yields the same multiset of
  summaries. The two orders of Alice name the product with SKU A1 differently and
  give different phone numbers; the summaries take these fields from the record that
  comes first, so swapping the two records changes both outputs. The totals depend on
  the order as well: three sales to one customer for 0.1, 0.2 and 0.3 add up to
  0.6000000000000001, and to 0.6 in the reverse order.
\<close>

theorem permutation_changes_summaries_counterexample:
  "mset [alice2, alice1] = mset [alice1, alice2]
   \<and> mset (productsSold (Some [alice2, alice1])) \<noteq> mset (productsSold (Some [alice1, alice2]))
   \<and> mset (customerPurchases (Some [alice2, alice1]))
       \<noteq> mset (customerPurchases (Some [alice1, alice2]))
   \<and> mset [paid (3 / 10), paid (2 / 10), paid (1 / 10)]
       = mset [paid (1 / 10), paid (2 / 10), paid (3 / 10)]
   \<and> map cp_totalSpent (customerPurchases (Some [paid (3 / 10), paid (2 / 10), paid (1 / 10)]))
       \<noteq> map cp_totalSpent (customerPurchases (Some [paid (1 / 10), paid (2 / 10), paid (3 / 10)]))"
proof (intro conjI)
  show "mset [alice2, alice1] = mset [alice1, alice2]"
    by simp
  have "map ps_name (productsSold (Some [alice2, alice1])) = [''Gadget'']"
    and "map ps_name (productsSold (Some [alice1, alice2])) = [''Widget'']"
    by (simp_all add: code_defs example_defs)
  then have "image_mset ps_name (mset (productsSold (Some [alice2, alice1])))
      \<noteq> image_mset ps_name (mset (productsSold (Some [alice1, alice2])))"
    by (simp only: mset_map[symmetric]) simp
  then show "mset (productsSold (Some [alice2, alice1])) \<noteq> mset (productsSold (Some [alice1, alice2]))"
    by auto
  have "map cp_phone (customerPurchases (Some [alice2, alice1])) = [''0311'']"
    and "map cp_phone (customerPurchases (Some [alice1, alice2])) = [''0300'']"
    by (simp_all add: code_defs example_defs)
  then have "image_mset cp_phone (mset (customerPurchases (Some [alice2, alice1])))
      \<noteq> image_mset cp_phone (mset (customerPurchases (Some [alice1, alice2])))"
    by (simp only: mset_map[symmetric]) simp
  then show "mset (customerPurchases (Some [alice2, alice1]))
       \<noteq> mset (customerPurchases (Some [alice1, alice2]))"
    by auto
  show "mset [paid (3 / 10), paid (2 / 10), paid (1 / 10)]
       = mset [paid (1 / 10), paid (2 / 10), paid (3 / 10)]"
    by simp
  show "map cp_totalSpent (customerPurchases (Some [paid (3 / 10), paid (2 / 10), paid (1 / 10)]))
       \<noteq> map cp_totalSpent (customerPurchases (Some [paid (1 / 10), paid (2 / 10), paid (3 / 10)]))"
    by code_simp
qed

text \<open>
  Claim C5, amended: a permutation of the input yields the same merge keys of
  products, and the same multiset of customers with their names, numbers of orders and
  sets of product names. When the defaulted quantities and total prices of all line
  items are whole numbers whose absolute values add up to at most \<open>2 ^ 53\<close>, it
  yields the same multiset of quantity, revenue and average price of the product
  summaries (also together with the merge key); when the defaulted total amounts are
  such numbers, the same multiset of customers with their amounts spent. The name, SKU
  and category of a product summary, the phone and type of a customer summary and the
  order of its product names come from the first occurrence and are not covered.
\<close>

theorem totals_permutation_invariant:
  assumes "mset sales' = mset sales"
  shows "image_mset customerCounts (mset (customerPurchases (Some sales')))
       = image_mset customerCounts (mset (customerPurchases (Some sales)))
    \<and> mset (map fst (productMap sales')) = mset (map fst (productMap sales))
    \<and> (exact_amounts (quantitiesOf (allItems sales)) \<and> exact_amounts (totalPricesOf (allItems sales))
        \<longrightarrow> image_mset productTotals (mset (productsSold (Some sales')))
              = image_mset productTotals (mset (productsSold (Some sales)))
            \<and> mset (map (\<lambda>(k, p). (k, productTotals p)) (productMap sales'))
              = mset (map (\<lambda>(k, p). (k, productTotals p)) (productMap sales)))
    \<and> (exact_amounts (totalAmountsOf sales)
        \<longrightarrow> image_mset customerTotals (mset (customerPurchases (Some sales')))
              = image_mset customerTotals (mset (customerPurchases (Some sales))))"
proof (intro conjI impI)
  have sales: "mset sales = mset sales'"
    using assms by simp
  have items: "mset (allItems sales) = mset (allItems sales')"
    using sales by (rule mset_allItems)
  have pm: "mset (productsSold (Some xs)) = mset (map snd (productMap xs))" for xs
    by (simp add: productsSold_sort)
  have cm: "mset (customerPurchases (Some xs)) = mset (map snd (customerMap xs))" for xs
    by (simp add: customerPurchases_sort)
  have "mset (map (\<lambda>(k, c). (k, customerCounts c)) (customerMap sales))
       = mset (map (\<lambda>(k, c). (k, customerCounts c)) (customerMap sales'))"
    unfolding customerMap_grouped using sales
    by (rule grouped_mset_cong) (rule customer_counts_mset)
  then show "image_mset customerCounts (mset (customerPurchases (Some sales')))
       = image_mset customerCounts (mset (customerPurchases (Some sales)))"
    by (simp only: cm image_mset_values)
  show "mset (map fst (productMap sales')) = mset (map fst (productMap sales))"
    unfolding productMap_grouped using items[symmetric] by (rule mset_map_fst_grouped)
  {
    assume ex: "exact_amounts (quantitiesOf (allItems sales)) \<and> exact_amounts (totalPricesOf (allItems sales))"
    have keyed: "mset (map (\<lambda>(k, p). (k, productTotals p)) (productMap sales))
         = mset (map (\<lambda>(k, p). (k, productTotals p)) (productMap sales'))"
      unfolding productMap_grouped using items
    proof (rule grouped_mset_cong)
      fix k ys zs
      assume ys: "ys \<noteq> []" "mset ys = mset zs" "mset ys \<subseteq># mset (allItems sales)"
      have "exact_amounts (quantitiesOf ys)" "exact_amounts (totalPricesOf ys)"
        using ex ys(3) unfolding quantitiesOf_def totalPricesOf_def
        by (auto intro: exact_amounts_sub)
      with ys(1,2) show "productTotals (summarise newProduct mergeProduct ys)
          = productTotals (summarise newProduct mergeProduct zs)"
        by (rule product_totals_mset)
    qed
    then show "mset (map (\<lambda>(k, p). (k, productTotals p)) (productMap sales'))
         = mset (map (\<lambda>(k, p). (k, productTotals p)) (productMap sales))"
      by simp
    from keyed show "image_mset productTotals (mset (productsSold (Some sales')))
         = image_mset productTotals (mset (productsSold (Some sales)))"
      by (simp only: pm image_mset_values)
  }
  {
    assume ex: "exact_amounts (totalAmountsOf sales)"
    have "mset (map (\<lambda>(k, c). (k, customerTotals c)) (customerMap sales))
         = mset (map (\<lambda>(k, c). (k, customerTotals c)) (customerMap sales'))"
      unfolding customerMap_grouped using sales
    proof (rule grouped_mset_cong)
      fix k ys zs
      assume ys: "ys \<noteq> []" "mset ys = mset zs" "\<forall>x\<in>set ys. customerKey x = k"
        "mset ys \<subseteq># mset sales"
      have "exact_amounts (totalAmountsOf ys)"
        using ex ys(4) unfolding totalAmountsOf_def by (rule exact_amounts_sub)
      with ys(1-3) show "customerTotals (summarise newCustomer mergeCustomer ys)
          = customerTotals (summarise newCustomer mergeCustomer zs)"
        by (rule customer_totals_mset)
    qed
    then show "image_mset customerTotals (mset (customerPurchases (Some sales')))
         = image_mset customerTotals (mset (customerPurchases (Some sales)))"
      by (simp only: cm image_mset_values)
  }
qed

text \<open>
The two orders of Alice and the sale with nothing filled in, rearranged.
\<close>

theorem totals_permutation_invariant_witness:
  "mset [alice2, blank_sale, alice1] = mset [alice1, alice2, blank_sale]
   \<and> exact_amounts (quantitiesOf (allItems [alice1, alice2, blank_sale]))
   \<and> exact_amounts (totalPricesOf (allItems [alice1, alice2, blank_sale]))
   \<and> exact_amounts (totalAmountsOf [alice1, alice2, blank_sale])
   \<and> image_mset customerCounts (mset (customerPurchases (Some [alice2, blank_sale, alice1])))
       = image_mset customerCounts (mset (customerPurchases (Some [alice1, alice2, blank_sale])))
   \<and> image_mset productTotals (mset (productsSold (Some [alice2, blank_sale, alice1])))
       = image_mset productTotals (mset (productsSold (Some [alice1, alice2, blank_sale])))
   \<and> image_mset customerTotals (mset (customerPurchases (Some [alice2, blank_sale, alice1])))
       = image_mset customerTotals (mset (customerPurchases (Some [alice1, alice2, blank_sale])))
   \<and> map productTotals (productsSold (Some [alice1, alice2, blank_sale]))
       = [(5, 250, Fin 50), (0, 0, Fin 0)]
   \<and> map customerTotals (customerPurchases (Some [alice1, alice2, blank_sale]))
       = [(''Alice'', 2, 250, {Some ''Widget'', Some ''Gadget''}),
          (''Walk-in Customer'', 1, 0, {None})]"
proof -
  let ?S = "[alice1, alice2, blank_sale]"
  have h: "mset [alice2, blank_sale, alice1] = mset ?S"
    by simp
  have q: "quantitiesOf (allItems ?S) = [2, 3, 0]"
    and r: "totalPricesOf (allItems ?S) = [100, 150, 0]"
    and a: "totalAmountsOf ?S = [100, 150, 0]"
    by (simp_all add: quantitiesOf_def totalPricesOf_def totalAmountsOf_def allItems_def
        or_default_def example_defs)
  have e: "exact_amounts (quantitiesOf (allItems ?S))" "exact_amounts (totalPricesOf (allItems ?S))"
      "exact_amounts (totalAmountsOf ?S)"
    unfolding q r a by (simp_all add: exact_amounts_def)
  have p: "map productTotals (productsSold (Some ?S)) = [(5, 250, Fin 50), (0, 0, Fin 0)]"
    by (simp add: code_defs example_defs productTotals_def)
  have c: "map customerTotals (customerPurchases (Some ?S))
       = [(''Alice'', 2, 250, {Some ''Widget'', Some ''Gadget''}),
          (''Walk-in Customer'', 1, 0, {None})]"
    by (simp add: code_defs example_defs customerTotals_def)
  show ?thesis
    using h e p c totals_permutation_invariant[OF h] by blast
qed

end
